theory Spec2Isabelle
  imports Main "HOL-Library.Word" "HOL-Library.Sublist"
begin

section \<open>The ledger: contract RWAToken\<close>

text \<open>
  The contract \<^verbatim>\<open>RWAToken is ERC20, ERC20Burnable, AccessControl, Pausable\<close> is embedded as
  functions on a record of its storage. A call that reverts returns \<open>Inl\<close> of the error and
  leaves the storage as it was; a call that succeeds returns \<open>Inr\<close> of the new storage, the
  emitted events appended to \<open>emitted\<close> in emission order.

  \<open>address\<close> is a 160-bit word, \<open>uint256\<close> a 256-bit word. The three role identifiers
  (\<open>DEFAULT_ADMIN_ROLE\<close> is the zero hash, the other two are Keccak hashes of their names)
  are three distinct constants, modelled as a datatype.
\<close>

type_synonym address = "160 word"
type_synonym uint256 = "256 word"

datatype role = DEFAULT_ADMIN_ROLE | ADMIN_ROLE | ISSUER_ROLE

record AssetMetadata =
  commodityType :: string
  unit :: string
  totalQuantity :: uint256
  storageLocation :: string
  certificationHash :: string
  createdAt :: uint256
  updatedAt :: uint256

datatype sol_event =
    WhitelistUpdated address bool
  | AssetMetadataUpdated string string uint256 string string
  | TokensMinted address uint256 string
  | TokensBurned address uint256 string
  | Transfer address address uint256
  | RoleGranted role address address
  | RoleRevoked role address address
  | Paused address
  | Unpaused address

text \<open>
  The ways a call reverts: a \<^verbatim>\<open>require\<close> of the contract with its reason string, the custom
  errors of the inherited OpenZeppelin 5 contracts, and the arithmetic panic of checked
  \<^verbatim>\<open>uint256\<close> addition.
\<close>

datatype sol_error =
    Require string
  | AccessControlUnauthorizedAccount address role
  | EnforcedPause
  | ExpectedPause
  | ERC20InvalidSender address
  | ERC20InvalidReceiver address
  | ERC20InsufficientBalance address uint256 uint256
  | Panic_0x11

record token_state =
  token_name :: string
  token_symbol :: string
  roles :: "role \<Rightarrow> address \<Rightarrow> bool"
  whitelist :: "address \<Rightarrow> bool"
  paused :: bool
  balances :: "address \<Rightarrow> uint256"
  totalSupply :: uint256
  assetMetadata :: AssetMetadata
  emitted :: "sol_event list"

definition emit :: "sol_event \<Rightarrow> token_state \<Rightarrow> token_state" where
  "emit e s = s\<lparr>emitted := emitted s @ [e]\<rparr>"

subsection \<open>Inherited library functions\<close>

text \<open>
  The contract imports OpenZeppelin Contracts 5 (\<^verbatim>\<open>utils/Pausable.sol\<close>, the \<^verbatim>\<open>_update\<close> hook and
  the custom errors the controllers and tests name). The inherited functions the contract calls
  are written out here as that library defines them: \<^verbatim>\<open>onlyRole\<close> and \<^verbatim>\<open>_grantRole\<close> of
  AccessControl, \<^verbatim>\<open>whenNotPaused\<close>, \<^verbatim>\<open>_pause\<close> and \<^verbatim>\<open>_unpause\<close> of Pausable, and \<^verbatim>\<open>_update\<close>,
  \<^verbatim>\<open>_mint\<close> and \<^verbatim>\<open>_burn\<close> of ERC20.
\<close>

definition onlyRole :: "role \<Rightarrow> address \<Rightarrow> token_state \<Rightarrow> sol_error option" where
  "onlyRole r sender s =
     (if roles s r sender then None else Some (AccessControlUnauthorizedAccount sender r))"

definition whenNotPaused :: "token_state \<Rightarrow> sol_error option" where
  "whenNotPaused s = (if paused s then Some EnforcedPause else None)"

definition whenPaused :: "token_state \<Rightarrow> sol_error option" where
  "whenPaused s = (if paused s then None else Some ExpectedPause)"

definition grantRole_internal :: "role \<Rightarrow> address \<Rightarrow> address \<Rightarrow> token_state \<Rightarrow> token_state" where
  "grantRole_internal r account sender s =
     (if \<not> roles s r account
      then emit (RoleGranted r account sender)
             (s\<lparr>roles := (roles s)(r := (roles s r)(account := True))\<rparr>)
      else s)"

text \<open>
  \<^verbatim>\<open>ERC20._update\<close>: the total supply grows with a checked addition (it panics on overflow),
  the balances move unchecked.
\<close>

definition ERC20_update :: "address \<Rightarrow> address \<Rightarrow> uint256 \<Rightarrow> token_state \<Rightarrow> sol_error + token_state" where
  "ERC20_update from to val s =
     (let debit =
        (if from = 0
         then (if 2 ^ 256 \<le> unat (totalSupply s) + unat val then Inl Panic_0x11
               else Inr (s\<lparr>totalSupply := totalSupply s + val\<rparr>))
         else (let fromBalance = balances s from in
               if fromBalance < val then Inl (ERC20InsufficientBalance from fromBalance val)
               else Inr (s\<lparr>balances := (balances s)(from := fromBalance - val)\<rparr>)))
      in case debit of
           Inl e \<Rightarrow> Inl e
         | Inr s1 \<Rightarrow>
             Inr (emit (Transfer from to val)
                   (if to = 0 then s1\<lparr>totalSupply := totalSupply s1 - val\<rparr>
                    else s1\<lparr>balances := (balances s1)(to := balances s1 to + val)\<rparr>)))"

subsection \<open>The contract's own functions\<close>

text \<open>
  \<^verbatim>\<open>_update\<close> as the contract overrides it: \<^verbatim>\<open>whenNotPaused\<close>, then the whitelist of both
  parties unless the movement is a mint (\<open>from = 0\<close>) or a burn (\<open>to = 0\<close>), then the
  inherited \<^verbatim>\<open>_update\<close>.
\<close>

definition update_internal :: "address \<Rightarrow> address \<Rightarrow> uint256 \<Rightarrow> token_state \<Rightarrow> sol_error + token_state" where
  "update_internal from to val s =
     (case whenNotPaused s of
        Some e \<Rightarrow> Inl e
      | None \<Rightarrow>
          if from \<noteq> 0 \<and> to \<noteq> 0 \<and> \<not> whitelist s from
          then Inl (Require ''RWAToken: sender not whitelisted'')
          else if from \<noteq> 0 \<and> to \<noteq> 0 \<and> \<not> whitelist s to
          then Inl (Require ''RWAToken: recipient not whitelisted'')
          else ERC20_update from to val s)"

definition mint_internal :: "address \<Rightarrow> uint256 \<Rightarrow> token_state \<Rightarrow> sol_error + token_state" where
  "mint_internal account val s =
     (if account = 0 then Inl (ERC20InvalidReceiver 0) else update_internal 0 account val s)"

definition burn_internal :: "address \<Rightarrow> uint256 \<Rightarrow> token_state \<Rightarrow> sol_error + token_state" where
  "burn_internal account val s =
     (if account = 0 then Inl (ERC20InvalidSender 0) else update_internal account 0 val s)"

text \<open>
  The constructor. The storage starts zeroed (no role, no whitelist entry, not paused, no
  balance); \<open>sender\<close> is \<^verbatim>\<open>msg.sender\<close> and \<open>now\<close> is \<^verbatim>\<open>block.timestamp\<close>.
\<close>

definition zeroed :: "string \<Rightarrow> string \<Rightarrow> token_state" where
  "zeroed name' symbol' =
     \<lparr>token_name = name', token_symbol = symbol',
      roles = (\<lambda>_ _. False), whitelist = (\<lambda>_. False), paused = False,
      balances = (\<lambda>_. 0), totalSupply = 0,
      assetMetadata = \<lparr>commodityType = [], unit = [], totalQuantity = 0,
        storageLocation = [], certificationHash = [], createdAt = 0, updatedAt = 0\<rparr>,
      emitted = []\<rparr>"

definition constructor ::
  "address \<Rightarrow> uint256 \<Rightarrow> string \<Rightarrow> string \<Rightarrow> string \<Rightarrow> string \<Rightarrow> uint256 \<Rightarrow> string \<Rightarrow> string
     \<Rightarrow> token_state" where
  "constructor sender now name' symbol' commodityType' unit' totalQuantity' storageLocation'
       certificationHash' =
     (let s0 = zeroed name' symbol';
          s1 = grantRole_internal DEFAULT_ADMIN_ROLE sender sender s0;
          s2 = grantRole_internal ADMIN_ROLE sender sender s1;
          s3 = grantRole_internal ISSUER_ROLE sender sender s2;
          s4 = emit (WhitelistUpdated sender True)
                 (s3\<lparr>whitelist := (whitelist s3)(sender := True)\<rparr>);
          s5 = s4\<lparr>assetMetadata :=
                 \<lparr>commodityType = commodityType', unit = unit',
                  totalQuantity = totalQuantity', storageLocation = storageLocation',
                  certificationHash = certificationHash', createdAt = now, updatedAt = now\<rparr>\<rparr>
      in emit (AssetMetadataUpdated commodityType' unit' totalQuantity' storageLocation'
                 certificationHash') s5)"

definition addToWhitelist :: "address \<Rightarrow> address \<Rightarrow> token_state \<Rightarrow> sol_error + token_state" where
  "addToWhitelist sender account s =
     (case onlyRole ADMIN_ROLE sender s of
        Some e \<Rightarrow> Inl e
      | None \<Rightarrow>
          if \<not> account \<noteq> 0 then Inl (Require ''RWAToken: zero address'')
          else if \<not> \<not> whitelist s account then Inl (Require ''RWAToken: already whitelisted'')
          else Inr (emit (WhitelistUpdated account True)
                     (s\<lparr>whitelist := (whitelist s)(account := True)\<rparr>)))"

definition removeFromWhitelist :: "address \<Rightarrow> address \<Rightarrow> token_state \<Rightarrow> sol_error + token_state" where
  "removeFromWhitelist sender account s =
     (case onlyRole ADMIN_ROLE sender s of
        Some e \<Rightarrow> Inl e
      | None \<Rightarrow>
          if \<not> whitelist s account then Inl (Require ''RWAToken: not whitelisted'')
          else Inr (emit (WhitelistUpdated account False)
                     (s\<lparr>whitelist := (whitelist s)(account := False)\<rparr>)))"

text \<open>The loop of \<^verbatim>\<open>batchAddToWhitelist\<close> over the array, front to back.\<close>

fun batchAdd_loop :: "address list \<Rightarrow> token_state \<Rightarrow> token_state" where
  "batchAdd_loop [] s = s"
| "batchAdd_loop (a # accounts) s =
     batchAdd_loop accounts
       (if a \<noteq> 0 \<and> \<not> whitelist s a
        then emit (WhitelistUpdated a True) (s\<lparr>whitelist := (whitelist s)(a := True)\<rparr>)
        else s)"

definition batchAddToWhitelist :: "address \<Rightarrow> address list \<Rightarrow> token_state \<Rightarrow> sol_error + token_state" where
  "batchAddToWhitelist sender accounts s =
     (case onlyRole ADMIN_ROLE sender s of
        Some e \<Rightarrow> Inl e
      | None \<Rightarrow> Inr (batchAdd_loop accounts s))"

definition isWhitelisted :: "address \<Rightarrow> token_state \<Rightarrow> bool" where
  "isWhitelisted account s = whitelist s account"

text \<open>
  \<^verbatim>\<open>mint\<close>: the modifiers run in the order they are written, \<^verbatim>\<open>onlyRole(ISSUER_ROLE)\<close> then
  \<^verbatim>\<open>whenNotPaused\<close>, before the two \<^verbatim>\<open>require\<close>s of the body.
\<close>

definition mint :: "address \<Rightarrow> address \<Rightarrow> uint256 \<Rightarrow> string \<Rightarrow> token_state \<Rightarrow> sol_error + token_state" where
  "mint sender to amount reason s =
     (case onlyRole ISSUER_ROLE sender s of
        Some e \<Rightarrow> Inl e
      | None \<Rightarrow>
          (case whenNotPaused s of
             Some e \<Rightarrow> Inl e
           | None \<Rightarrow>
               if \<not> whitelist s to then Inl (Require ''RWAToken: recipient not whitelisted'')
               else if \<not> amount > 0 then Inl (Require ''RWAToken: amount must be greater than 0'')
               else (case mint_internal to amount s of
                       Inl e \<Rightarrow> Inl e
                     | Inr s' \<Rightarrow> Inr (emit (TokensMinted to amount reason) s'))))"

definition burnWithReason :: "address \<Rightarrow> uint256 \<Rightarrow> string \<Rightarrow> token_state \<Rightarrow> sol_error + token_state" where
  "burnWithReason sender amount reason s =
     (case whenNotPaused s of
        Some e \<Rightarrow> Inl e
      | None \<Rightarrow>
          if \<not> amount > 0 then Inl (Require ''RWAToken: amount must be greater than 0'')
          else (case burn_internal sender amount s of
                  Inl e \<Rightarrow> Inl e
                | Inr s' \<Rightarrow> Inr (emit (TokensBurned sender amount reason) s')))"

definition pause :: "address \<Rightarrow> token_state \<Rightarrow> sol_error + token_state" where
  "pause sender s =
     (case onlyRole ADMIN_ROLE sender s of
        Some e \<Rightarrow> Inl e
      | None \<Rightarrow>
          (case whenNotPaused s of
             Some e \<Rightarrow> Inl e
           | None \<Rightarrow> Inr (emit (Paused sender) (s\<lparr>paused := True\<rparr>))))"

definition unpause :: "address \<Rightarrow> token_state \<Rightarrow> sol_error + token_state" where
  "unpause sender s =
     (case onlyRole ADMIN_ROLE sender s of
        Some e \<Rightarrow> Inl e
      | None \<Rightarrow>
          (case whenPaused s of
             Some e \<Rightarrow> Inl e
           | None \<Rightarrow> Inr (emit (Unpaused sender) (s\<lparr>paused := False\<rparr>))))"


section \<open>The mirror store and the event synchronizer\<close>

text \<open>
  Strings are \<open>string\<close>; addresses and transaction hashes are hexadecimal ASCII text, and
  \<^verbatim>\<open>toLowerCase\<close> is modelled on ASCII letters. \<^verbatim>\<open>includes\<close> is substring search (\<open>str_includes\<close>) and
  \<^verbatim>\<open>slice(0, n)\<close> is \<open>take n\<close>.
\<close>

definition toLowerCase :: "string \<Rightarrow> string" where
  "toLowerCase str =
     map (\<lambda>c. let n = (of_char c :: nat) in if 65 \<le> n \<and> n \<le> 90 then char_of (n + 32) else c) str"

fun str_includes :: "string \<Rightarrow> string \<Rightarrow> bool" where
  "str_includes [] pat = (pat = [])"
| "str_includes (c # cs) pat = (take (length pat) (c # cs) = pat \<or> str_includes cs pat)"

text \<open>
  What a rejected promise or a thrown exception carries: the failures of the transport to the
  provider or to the store, the store's rejection of a document, and a \<^verbatim>\<open>TypeError\<close>.
  \<open>message\<close> is \<^verbatim>\<open>error.message\<close>.
\<close>

datatype error =
    TransportError string
  | ValidationError string
  | DuplicateKey string
  | TypeError string

fun message :: "error \<Rightarrow> string" where
  "message (TransportError m) = m"
| "message (ValidationError m) = m"
| "message (DuplicateKey m) = m"
| "message (TypeError m) = m"

datatype console_line =
    ConsoleLog string
  | ConsoleError string string

fun is_error_line :: "console_line \<Rightarrow> bool" where
  "is_error_line (ConsoleLog _) = False"
| "is_error_line (ConsoleError _ _) = True"

subsection \<open>Events as the provider returns them\<close>

text \<open>
  An event log of \<^verbatim>\<open>queryFilter\<close>: the transaction hash, the block number and the decoded
  arguments, whose shape depends on the event. A \<^verbatim>\<open>uint256\<close> argument is a \<^verbatim>\<open>bigint\<close>, here \<open>nat\<close>.
\<close>

datatype event_args =
    TransferArgs string string nat
  | TokensMintedArgs string nat string
  | TokensBurnedArgs string nat string
  | WhitelistUpdatedArgs string bool
  | PausedArgs string

record event_log =
  transactionHash :: string
  log_blockNumber :: nat
  args :: event_args

subsection \<open>The remote services\<close>

text \<open>
  What the calls through \<^verbatim>\<open>this.provider\<close> and \<^verbatim>\<open>this.contract\<close> answer during one polling
  iteration, and whether the store answers. Every call can fail, by the transport or because
  the handle is still \<^verbatim>\<open>null\<close>. \<open>getContract\<close> is the error \<^verbatim>\<open>getContract()\<close> throws, if it
  does; \<open>getBlock\<close> answers the block's timestamp in seconds, or \<^verbatim>\<open>null\<close>; \<open>clock\<close> is what
  \<^verbatim>\<open>new Date()\<close> reads, in milliseconds. The last three fields are the error with which the
  store rejects a call because it cannot be reached, if it does: a lookup by hash and,
  where the filter has one, event type; the insertion of a document with this hash and event
  type; the update of the user with this address.
\<close>

record remote =
  getContract :: "error option"
  getBlockNumber :: "error + nat"
  queryFilter :: "string \<Rightarrow> nat \<Rightarrow> nat \<Rightarrow> error + event_log list"
  getBlock :: "nat \<Rightarrow> error + nat option"
  clock :: nat
  findOne_error :: "string \<Rightarrow> string option \<Rightarrow> error option"
  create_error :: "string \<Rightarrow> string \<Rightarrow> error option"
  findOneAndUpdate_error :: "string \<Rightarrow> error option"

subsection \<open>The Transaction and User models\<close>

text \<open>
  A document of the Transaction model. \<open>amount\<close> is the decimal text \<^verbatim>\<open>value.toString()\<close>;
  \<^verbatim>\<open>amountFormatted\<close>, a floating-point rendering of the same number, is left out.
  \<open>blockTimestamp\<close> is in milliseconds.
\<close>

record transaction =
  txHash :: string
  blockNumber :: nat
  blockTimestamp :: nat
  eventType :: string
  from_address :: "string option"
  to_address :: "string option"
  amount :: "string option"
  whitelistStatus :: "bool option"
  role_name :: "string option"
  account :: "string option"
  reason :: "string option"
  rawData :: event_args
  processed :: bool

definition eventType_enum :: "string list" where
  "eventType_enum =
     [''Transfer'', ''Mint'', ''Burn'', ''WhitelistUpdated'', ''Paused'', ''Unpaused'',
      ''RoleGranted'', ''RoleRevoked'', ''AssetMetadataUpdated'']"

text \<open>
  \<^verbatim>\<open>Transaction.findOne(filter)\<close>: rejected when the store cannot be reached, otherwise the
  first document that matches, if any. The filter is a hash, with or without an event type:
  the polling service filters on both, the listener's transfer handler on the hash alone.
\<close>

definition Transaction_findOne ::
  "remote \<Rightarrow> string \<Rightarrow> string option \<Rightarrow> transaction list \<Rightarrow> error + transaction option" where
  "Transaction_findOne env h k db =
     (case findOne_error env h k of
        Some e \<Rightarrow> Inl e
      | None \<Rightarrow>
          Inr (find (\<lambda>t. txHash t = h \<and> (case k of None \<Rightarrow> True | Some k' \<Rightarrow> eventType t = k'))
                 db))"

text \<open>
  \<^verbatim>\<open>Transaction.create(doc)\<close>: the schema's setters lower-case \<^verbatim>\<open>from\<close>, \<^verbatim>\<open>to\<close> and \<^verbatim>\<open>account\<close>;
  validation, before anything is sent, requires a hash and an event type of the enumeration;
  the insertion is rejected when the store cannot be reached; and it meets the schema's
  \<^verbatim>\<open>unique: true\<close> index on \<^verbatim>\<open>txHash\<close>, which rejects a second document with a hash already
  stored, whatever its event type.
\<close>

definition Transaction_create ::
  "remote \<Rightarrow> transaction \<Rightarrow> transaction list \<Rightarrow> error + transaction list" where
  "Transaction_create env doc db =
     (let doc' = doc\<lparr>from_address := map_option toLowerCase (from_address doc),
                     to_address := map_option toLowerCase (to_address doc),
                     account := map_option toLowerCase (account doc)\<rparr>
      in if txHash doc' = [] then Inl (ValidationError ''Path `txHash` is required.'')
         else if eventType doc' \<notin> set eventType_enum
         then Inl (ValidationError ''not a valid enum value for path `eventType`.'')
         else (case create_error env (txHash doc') (eventType doc') of
                 Some e \<Rightarrow> Inl e
               | None \<Rightarrow>
                   if txHash doc' \<in> set (map txHash db)
                   then Inl (DuplicateKey ''E11000 duplicate key error'')
                   else Inr (db @ [doc'])))"

text \<open>
  The fields of a User document the synchronizer reads or writes. The schema has no balance
  field.
\<close>

record user =
  walletAddress :: string
  isWhitelisted :: bool

text \<open>
  \<^verbatim>\<open>User.findOneAndUpdate({walletAddress}, {isWhitelisted})\<close>, without upsert: rejected when the
  store cannot be reached, otherwise the first user with the address is updated, if there is
  one.
\<close>

fun update_first :: "string \<Rightarrow> bool \<Rightarrow> user list \<Rightarrow> user list" where
  "update_first a status [] = []"
| "update_first a status (u # us) =
     (if walletAddress u = a then u\<lparr>isWhitelisted := status\<rparr> # us
      else u # update_first a status us)"

definition User_findOneAndUpdate ::
  "remote \<Rightarrow> string \<Rightarrow> bool \<Rightarrow> user list \<Rightarrow> error + user list" where
  "User_findOneAndUpdate env a status us =
     (case findOneAndUpdate_error env a of
        Some e \<Rightarrow> Inl e
      | None \<Rightarrow> Inr (update_first a status us))"

subsection \<open>The service object and the store\<close>

text \<open>
  The fields of \<^verbatim>\<open>EventSyncService\<close> that change (\<open>contract\<close> is whether \<^verbatim>\<open>this.contract\<close> is
  set, \<open>pollingInterval\<close> the running timer with its period), the two collections of the
  store, and the console. \<^verbatim>\<open>pollEvents\<close> is asynchronous and nothing awaits it, so several
  iterations can be in flight: \<open>pending\<close> holds, for each iteration that has computed its
  window and not yet returned from \<^verbatim>\<open>queryEvents\<close>, its local \<^verbatim>\<open>fromBlock\<close> and \<^verbatim>\<open>toBlock\<close>.
\<close>

record sync_state =
  contract :: bool
  isRunning :: bool
  lastProcessedBlock :: nat
  pollingInterval :: "nat option"
  pending :: "(nat \<times> nat) list"
  transactions :: "transaction list"
  users :: "user list"
  console :: "console_line list"

definition POLLING_INTERVAL_MS :: nat where
  "POLLING_INTERVAL_MS = 15000"

definition BLOCKS_PER_QUERY :: nat where
  "BLOCKS_PER_QUERY = 100"

definition EventSyncService :: sync_state where
  "EventSyncService =
     \<lparr>contract = False, isRunning = False, lastProcessedBlock = 0, pollingInterval = None,
      pending = [], transactions = [], users = [], console = []\<rparr>"

definition console_log :: "string \<Rightarrow> sync_state \<Rightarrow> sync_state" where
  "console_log m s = s\<lparr>console := console s @ [ConsoleLog m]\<rparr>"

definition console_error :: "string \<Rightarrow> string \<Rightarrow> sync_state \<Rightarrow> sync_state" where
  "console_error p m s = s\<lparr>console := console s @ [ConsoleError p m]\<rparr>"

definition blockDate :: "remote \<Rightarrow> nat option \<Rightarrow> nat" where
  "blockDate env block = (case block of Some ts \<Rightarrow> ts * 1000 | None \<Rightarrow> clock env)"

text \<open>The decimal text of a number, as a template literal or \<^verbatim>\<open>toString()\<close> renders it.\<close>

function decimal :: "nat \<Rightarrow> string" where
  "decimal n =
     (if n < 10 then [char_of (48 + n)] else decimal (n div 10) @ [char_of (48 + n mod 10)])"
  by pat_completeness auto
termination
  by (relation "measure id") auto

declare decimal.simps [simp del]

definition new_transaction :: "string \<Rightarrow> nat \<Rightarrow> nat \<Rightarrow> string \<Rightarrow> event_args \<Rightarrow> transaction" where
  "new_transaction h n ts k raw =
     \<lparr>txHash = h, blockNumber = n, blockTimestamp = ts, eventType = k,
      from_address = None, to_address = None, amount = None, whitelistStatus = None,
      role_name = None, account = None, reason = None, rawData = raw, processed = True\<rparr>"

subsection \<open>Processing one event (polling service)\<close>

text \<open>
  Each \<^verbatim>\<open>process...Event\<close> is one \<^verbatim>\<open>try\<close> block whose \<^verbatim>\<open>catch\<close> writes the error to the console
  and returns normally: the lookup of an existing record by hash and event type, the block
  lookup, the creation of the record (and, for a whitelist event, the update of the user,
  which comes after the record is stored). The decoded arguments have the shape of the event
  the filter asked for; a log of any other shape, which the provider never delivers, is
  answered with a \<^verbatim>\<open>TypeError\<close> where the arguments are first used, after the block lookup.
\<close>

definition processTransferEvent :: "remote \<Rightarrow> event_log \<Rightarrow> sync_state \<Rightarrow> sync_state" where
  "processTransferEvent env event s =
     (let h = transactionHash event in
      case Transaction_findOne env h (Some ''Transfer'') (transactions s) of
        Inl e \<Rightarrow> console_error ''Error processing transfer event:'' (message e) s
      | Inr (Some _) \<Rightarrow> s
      | Inr None \<Rightarrow>
          (case getBlock env (log_blockNumber event) of
             Inl e \<Rightarrow> console_error ''Error processing transfer event:'' (message e) s
           | Inr block \<Rightarrow>
               (case args event of
                  TransferArgs from to val \<Rightarrow>
                    (case Transaction_create env
                            ((new_transaction h (log_blockNumber event) (blockDate env block)
                                ''Transfer'' (args event))
                              \<lparr>from_address := Some (toLowerCase from),
                               to_address := Some (toLowerCase to),
                               amount := Some (decimal val)\<rparr>)
                            (transactions s) of
                       Inl e \<Rightarrow> console_error ''Error processing transfer event:'' (message e) s
                     | Inr db \<Rightarrow>
                         console_log (''Transfer event processed: '' @ take 10 h @ ''...'')
                           (s\<lparr>transactions := db\<rparr>))
                | _ \<Rightarrow>
                    console_error ''Error processing transfer event:''
                      (message (TypeError ''toLowerCase is not a function'')) s)))"

definition processMintEvent :: "remote \<Rightarrow> event_log \<Rightarrow> sync_state \<Rightarrow> sync_state" where
  "processMintEvent env event s =
     (let h = transactionHash event in
      case Transaction_findOne env h (Some ''Mint'') (transactions s) of
        Inl e \<Rightarrow> console_error ''Error processing mint event:'' (message e) s
      | Inr (Some _) \<Rightarrow> s
      | Inr None \<Rightarrow>
          (case getBlock env (log_blockNumber event) of
             Inl e \<Rightarrow> console_error ''Error processing mint event:'' (message e) s
           | Inr block \<Rightarrow>
               (case args event of
                  TokensMintedArgs to amt why \<Rightarrow>
                    (case Transaction_create env
                            ((new_transaction h (log_blockNumber event) (blockDate env block)
                                ''Mint'' (args event))
                              \<lparr>to_address := Some (toLowerCase to),
                               amount := Some (decimal amt), reason := Some why\<rparr>)
                            (transactions s) of
                       Inl e \<Rightarrow> console_error ''Error processing mint event:'' (message e) s
                     | Inr db \<Rightarrow>
                         console_log (''Mint event processed: '' @ take 10 h @ ''...'')
                           (s\<lparr>transactions := db\<rparr>))
                | _ \<Rightarrow>
                    console_error ''Error processing mint event:''
                      (message (TypeError ''toLowerCase is not a function'')) s)))"

definition processBurnEvent :: "remote \<Rightarrow> event_log \<Rightarrow> sync_state \<Rightarrow> sync_state" where
  "processBurnEvent env event s =
     (let h = transactionHash event in
      case Transaction_findOne env h (Some ''Burn'') (transactions s) of
        Inl e \<Rightarrow> console_error ''Error processing burn event:'' (message e) s
      | Inr (Some _) \<Rightarrow> s
      | Inr None \<Rightarrow>
          (case getBlock env (log_blockNumber event) of
             Inl e \<Rightarrow> console_error ''Error processing burn event:'' (message e) s
           | Inr block \<Rightarrow>
               (case args event of
                  TokensBurnedArgs from amt why \<Rightarrow>
                    (case Transaction_create env
                            ((new_transaction h (log_blockNumber event) (blockDate env block)
                                ''Burn'' (args event))
                              \<lparr>from_address := Some (toLowerCase from),
                               amount := Some (decimal amt), reason := Some why\<rparr>)
                            (transactions s) of
                       Inl e \<Rightarrow> console_error ''Error processing burn event:'' (message e) s
                     | Inr db \<Rightarrow>
                         console_log (''Burn event processed: '' @ take 10 h @ ''...'')
                           (s\<lparr>transactions := db\<rparr>))
                | _ \<Rightarrow>
                    console_error ''Error processing burn event:''
                      (message (TypeError ''toLowerCase is not a function'')) s)))"

definition processWhitelistEvent :: "remote \<Rightarrow> event_log \<Rightarrow> sync_state \<Rightarrow> sync_state" where
  "processWhitelistEvent env event s =
     (let h = transactionHash event in
      case Transaction_findOne env h (Some ''WhitelistUpdated'') (transactions s) of
        Inl e \<Rightarrow> console_error ''Error processing whitelist event:'' (message e) s
      | Inr (Some _) \<Rightarrow> s
      | Inr None \<Rightarrow>
          (case getBlock env (log_blockNumber event) of
             Inl e \<Rightarrow> console_error ''Error processing whitelist event:'' (message e) s
           | Inr block \<Rightarrow>
               (case args event of
                  WhitelistUpdatedArgs acct status \<Rightarrow>
                    (case Transaction_create env
                            ((new_transaction h (log_blockNumber event) (blockDate env block)
                                ''WhitelistUpdated'' (args event))
                              \<lparr>account := Some (toLowerCase acct),
                               whitelistStatus := Some status\<rparr>)
                            (transactions s) of
                       Inl e \<Rightarrow> console_error ''Error processing whitelist event:'' (message e) s
                     | Inr db \<Rightarrow>
                         (case User_findOneAndUpdate env (toLowerCase acct) status (users s) of
                            Inl e \<Rightarrow>
                              console_error ''Error processing whitelist event:'' (message e) (s\<lparr>transactions := db\<rparr>)
                          | Inr us \<Rightarrow>
                              console_log (''Whitelist event processed: '' @ take 10 h @ ''...'')
                                (s\<lparr>transactions := db, users := us\<rparr>)))
                | _ \<Rightarrow>
                    console_error ''Error processing whitelist event:''
                      (message (TypeError ''toLowerCase is not a function'')) s)))"

definition processPauseEvent :: "remote \<Rightarrow> event_log \<Rightarrow> bool \<Rightarrow> sync_state \<Rightarrow> sync_state" where
  "processPauseEvent env event paused' s =
     (let h = transactionHash event;
          k = (if paused' then ''Paused'' else ''Unpaused'') in
      case Transaction_findOne env h (Some k) (transactions s) of
        Inl e \<Rightarrow> console_error ''Error processing pause event:'' (message e) s
      | Inr (Some _) \<Rightarrow> s
      | Inr None \<Rightarrow>
          (case getBlock env (log_blockNumber event) of
             Inl e \<Rightarrow> console_error ''Error processing pause event:'' (message e) s
           | Inr block \<Rightarrow>
               (case args event of
                  PausedArgs acct \<Rightarrow>
                    (case Transaction_create env
                            ((new_transaction h (log_blockNumber event) (blockDate env block)
                                k (args event))
                              \<lparr>account := Some (toLowerCase acct)\<rparr>)
                            (transactions s) of
                       Inl e \<Rightarrow> console_error ''Error processing pause event:'' (message e) s
                     | Inr db \<Rightarrow>
                         console_log (k @ '' event processed: '' @ take 10 h @ ''...'')
                           (s\<lparr>transactions := db\<rparr>))
                | _ \<Rightarrow>
                    console_error ''Error processing pause event:''
                      (message (TypeError ''toLowerCase is not a function'')) s)))"

subsection \<open>One polling iteration\<close>

text \<open>
  \<^verbatim>\<open>queryEvents\<close> asks for the six kinds of event in turn, each over the same block range, and
  processes what it gets in the order received. Its \<^verbatim>\<open>catch\<close> keeps what was stored before the
  failing query, writes the error to the console unless the message contains
  \<^verbatim>\<open>filter not found\<close>, and returns normally.
\<close>

definition queryEvents_catch :: "error \<Rightarrow> sync_state \<Rightarrow> sync_state" where
  "queryEvents_catch e s =
     (if \<not> str_includes (message e) ''filter not found''
      then console_error ''Error querying events:'' (message e) s else s)"

definition queryEvents :: "remote \<Rightarrow> nat \<Rightarrow> nat \<Rightarrow> sync_state \<Rightarrow> sync_state" where
  "queryEvents env fromBlock toBlock s =
     (case queryFilter env ''Transfer'' fromBlock toBlock of
        Inl e \<Rightarrow> queryEvents_catch e s
      | Inr transferEvents \<Rightarrow>
     (let s1 = fold (processTransferEvent env) transferEvents s in
      case queryFilter env ''TokensMinted'' fromBlock toBlock of
        Inl e \<Rightarrow> queryEvents_catch e s1
      | Inr mintEvents \<Rightarrow>
     (let s2 = fold (processMintEvent env) mintEvents s1 in
      case queryFilter env ''TokensBurned'' fromBlock toBlock of
        Inl e \<Rightarrow> queryEvents_catch e s2
      | Inr burnEvents \<Rightarrow>
     (let s3 = fold (processBurnEvent env) burnEvents s2 in
      case queryFilter env ''WhitelistUpdated'' fromBlock toBlock of
        Inl e \<Rightarrow> queryEvents_catch e s3
      | Inr whitelistEvents \<Rightarrow>
     (let s4 = fold (processWhitelistEvent env) whitelistEvents s3 in
      case queryFilter env ''Paused'' fromBlock toBlock of
        Inl e \<Rightarrow> queryEvents_catch e s4
      | Inr pausedEvents \<Rightarrow>
     (let s5 = fold (\<lambda>event. processPauseEvent env event True) pausedEvents s4 in
      case queryFilter env ''Unpaused'' fromBlock toBlock of
        Inl e \<Rightarrow> queryEvents_catch e s5
      | Inr unpausedEvents \<Rightarrow>
          fold (\<lambda>event. processPauseEvent env event False) unpausedEvents s5))))))"

text \<open>
  \<^verbatim>\<open>pollEvents\<close>: the head query, the window, \<^verbatim>\<open>queryEvents\<close> (which never throws), and the
  assignment to \<^verbatim>\<open>lastProcessedBlock\<close>. Its \<^verbatim>\<open>catch\<close> is reached from the head query only.
  \<open>pollEvents\<close> is the iteration when nothing else runs between its steps.
\<close>

definition pollEvents_catch :: "error \<Rightarrow> sync_state \<Rightarrow> sync_state" where
  "pollEvents_catch e s =
     (if \<not> str_includes (message e) ''filter not found''
      then console_error ''Error polling events:'' (message e) s else s)"

definition pollEvents :: "remote \<Rightarrow> sync_state \<Rightarrow> sync_state" where
  "pollEvents env s =
     (case getBlockNumber env of
        Inl e \<Rightarrow> pollEvents_catch e s
      | Inr currentBlock \<Rightarrow>
          if currentBlock \<le> lastProcessedBlock s then s
          else (let fromBlock = lastProcessedBlock s + 1;
                    toBlock = min (fromBlock + BLOCKS_PER_QUERY - 1) currentBlock;
                    s1 = queryEvents env fromBlock toBlock s
                in s1\<lparr>lastProcessedBlock := toBlock\<rparr>))"

text \<open>
  The same iteration in the two steps between which other code can run. \<open>pollEvents_begin\<close>
  is the iteration up to its call of \<^verbatim>\<open>queryEvents\<close>: the head query answers, the cursor is read
  and the window computed and kept. \<open>pollEvents_finish\<close> is the rest: \<^verbatim>\<open>queryEvents\<close> over the
  window kept, then the assignment of the \<^verbatim>\<open>toBlock\<close> computed at the beginning, whatever the
  cursor has become in between. (The awaits inside \<^verbatim>\<open>queryEvents\<close> are not split further.)
\<close>

definition pollEvents_begin :: "remote \<Rightarrow> sync_state \<Rightarrow> sync_state" where
  "pollEvents_begin env s =
     (case getBlockNumber env of
        Inl e \<Rightarrow> pollEvents_catch e s
      | Inr currentBlock \<Rightarrow>
          if currentBlock \<le> lastProcessedBlock s then s
          else (let fromBlock = lastProcessedBlock s + 1;
                    toBlock = min (fromBlock + BLOCKS_PER_QUERY - 1) currentBlock
                in s\<lparr>pending := pending s @ [(fromBlock, toBlock)]\<rparr>))"

definition pollEvents_finish :: "remote \<Rightarrow> nat \<times> nat \<Rightarrow> sync_state \<Rightarrow> sync_state" where
  "pollEvents_finish env w s =
     (let fromBlock = fst w; toBlock = snd w;
          s1 = queryEvents env fromBlock toBlock s
      in s1\<lparr>lastProcessedBlock := toBlock\<rparr>)"

subsection \<open>Starting and stopping\<close>

definition initialize :: "remote \<Rightarrow> sync_state \<Rightarrow> bool \<times> sync_state" where
  "initialize env s =
     (case getContract env of
        Some e \<Rightarrow> (False, console_error ''Failed to initialize event sync:'' (message e) s)
      | None \<Rightarrow>
          (let s1 = s\<lparr>contract := True\<rparr> in
           case getBlockNumber env of
             Inl e \<Rightarrow> (False, console_error ''Failed to initialize event sync:'' (message e) s1)
           | Inr n \<Rightarrow>
               (True, console_log (''Event sync initialized at block '' @ decimal n)
                        (s1\<lparr>lastProcessedBlock := n\<rparr>))))"

text \<open>
  \<^verbatim>\<open>startListening\<close> with the remote answers during initialization (\<open>env0\<close>) and the answer
  to the head query of the first poll it launches (\<open>env1\<close>). It does not await that poll: the
  poll is left in flight, to finish later.
\<close>

definition startListening :: "remote \<Rightarrow> remote \<Rightarrow> sync_state \<Rightarrow> sync_state" where
  "startListening env0 env1 s =
     (if isRunning s then console_log ''Event sync is already running'' s
      else (let (initialized, s1) = (if \<not> contract s then initialize env0 s else (True, s)) in
            if \<not> initialized
            then console_error ''Cannot start event sync - initialization failed'' [] s1
            else (let s2 = s1\<lparr>isRunning := True\<rparr>;
                      s3 = console_log ''Starting blockchain event polling...'' s2;
                      s4 = console_log (''Polling interval: ''
                             @ decimal (POLLING_INTERVAL_MS div 1000) @ ''s'') s3;
                      s5 = s4\<lparr>pollingInterval := Some POLLING_INTERVAL_MS\<rparr>;
                      s6 = console_log ''Event polling started successfully'' s5
                  in pollEvents_begin env1 s6)))"

definition stopListening :: "sync_state \<Rightarrow> sync_state" where
  "stopListening s =
     (let s1 = (case pollingInterval s of
                  Some _ \<Rightarrow> console_log ''Event polling stopped'' (s\<lparr>pollingInterval := None\<rparr>)
                | None \<Rightarrow> s)
      in s1\<lparr>isRunning := False\<rparr>)"

text \<open>
  A restart of the process: the module builds a new service object, with the constructor's
  values; the iterations in flight are gone with the old process; what the store holds, and
  the console, stay.
\<close>

definition restart :: "sync_state \<Rightarrow> sync_state" where
  "restart s =
     EventSyncService\<lparr>transactions := transactions s, users := users s, console := console s\<rparr>"

text \<open>
  The life of the service as a sequence of steps. \<open>Start\<close> and \<open>Stop\<close> are calls of
  \<^verbatim>\<open>startListening\<close> and \<^verbatim>\<open>stopListening\<close>. While the timer is set, and never after it was
  cleared, it launches iterations: \<open>Launch\<close> takes one up to its window and leaves it in
  flight, and \<open>Finish i\<close> lets the \<open>i\<close>-th iteration in flight run to its end, so that
  iterations can overlap and finish in any order; \<open>Tick\<close> is an iteration that runs from
  the head query to the cursor's assignment with no other step in between. \<open>Restart\<close> is a
  restart of the process.
\<close>

datatype step =
    Start remote remote
  | Tick remote
  | Launch remote
  | Finish nat remote
  | Stop
  | Restart

fun apply_step :: "step \<Rightarrow> sync_state \<Rightarrow> sync_state" where
  "apply_step (Start env0 env1) s = startListening env0 env1 s"
| "apply_step (Tick env) s = (if pollingInterval s \<noteq> None then pollEvents env s else s)"
| "apply_step (Launch env) s =
     (if pollingInterval s \<noteq> None then pollEvents_begin env s else s)"
| "apply_step (Finish i env) s =
     (if i < length (pending s)
      then pollEvents_finish env (pending s ! i)
             (s\<lparr>pending := take i (pending s) @ drop (Suc i) (pending s)\<rparr>)
      else s)"
| "apply_step Stop s = stopListening s"
| "apply_step Restart s = restart s"

fun run :: "step list \<Rightarrow> sync_state \<Rightarrow> sync_state" where
  "run [] s = s"
| "run (st # steps) s = run steps (apply_step st s)"

subsection \<open>The listener service\<close>

text \<open>
  The second \<^verbatim>\<open>EventSyncService\<close> subscribes to the events instead of polling. Its handlers
  receive the decoded arguments one by one. Its \<^verbatim>\<open>processTransferEvent\<close> looks an existing
  record up by the hash alone, and both handlers read \<^verbatim>\<open>block.timestamp\<close> without a test for
  \<^verbatim>\<open>null\<close>.
\<close>

definition processTransferEvent_listener ::
  "remote \<Rightarrow> string \<Rightarrow> string \<Rightarrow> nat \<Rightarrow> event_log \<Rightarrow> sync_state \<Rightarrow> sync_state" where
  "processTransferEvent_listener env from to val event s =
     (let h = transactionHash event in
      case Transaction_findOne env h None (transactions s) of
        Inl e \<Rightarrow> console_error ''Error processing transfer event:'' (message e) s
      | Inr (Some _) \<Rightarrow> s
      | Inr None \<Rightarrow>
          (case getBlock env (log_blockNumber event) of
             Inl e \<Rightarrow> console_error ''Error processing transfer event:'' (message e) s
           | Inr None \<Rightarrow>
               console_error ''Error processing transfer event:''
                 (message (TypeError ''Cannot read properties of null'')) s
           | Inr (Some ts) \<Rightarrow>
               (case Transaction_create env
                       ((new_transaction h (log_blockNumber event) (ts * 1000) ''Transfer''
                           (TransferArgs from to val))
                         \<lparr>from_address := Some (toLowerCase from),
                          to_address := Some (toLowerCase to),
                          amount := Some (decimal val)\<rparr>)
                       (transactions s) of
                  Inl e \<Rightarrow> console_error ''Error processing transfer event:'' (message e) s
                | Inr db \<Rightarrow>
                    console_log (''Transfer event processed: '' @ h) (s\<lparr>transactions := db\<rparr>))))"

definition processMintEvent_listener ::
  "remote \<Rightarrow> string \<Rightarrow> nat \<Rightarrow> string \<Rightarrow> event_log \<Rightarrow> sync_state \<Rightarrow> sync_state" where
  "processMintEvent_listener env to amt why event s =
     (let h = transactionHash event in
      case Transaction_findOne env h (Some ''Mint'') (transactions s) of
        Inl e \<Rightarrow> console_error ''Error processing mint event:'' (message e) s
      | Inr (Some _) \<Rightarrow> s
      | Inr None \<Rightarrow>
          (case getBlock env (log_blockNumber event) of
             Inl e \<Rightarrow> console_error ''Error processing mint event:'' (message e) s
           | Inr None \<Rightarrow>
               console_error ''Error processing mint event:''
                 (message (TypeError ''Cannot read properties of null'')) s
           | Inr (Some ts) \<Rightarrow>
               (case Transaction_create env
                       ((new_transaction h (log_blockNumber event) (ts * 1000) ''Mint''
                           (TokensMintedArgs to amt why))
                         \<lparr>to_address := Some (toLowerCase to),
                          amount := Some (decimal amt), reason := Some why\<rparr>)
                       (transactions s) of
                  Inl e \<Rightarrow> console_error ''Error processing mint event:'' (message e) s
                | Inr db \<Rightarrow>
                    console_log (''Mint event processed: '' @ h) (s\<lparr>transactions := db\<rparr>))))"

section \<open>Signature verification\<close>

text \<open>
  \<^verbatim>\<open>verifySignature\<close> wraps \<^verbatim>\<open>ethers.verifyMessage\<close>, a function of the ethers library taken here
  as the parameter \<open>verifyMessage\<close>: it answers the recovered address or throws. The expected
  address is a JavaScript value, a string or not; \<^verbatim>\<open>toLowerCase\<close> of anything else throws.
  \<open>verifySignature_try\<close> is the body of the \<^verbatim>\<open>try\<close>, \<open>verifySignature\<close> the function with its
  \<^verbatim>\<open>catch\<close>.
\<close>

datatype js_value = JsString string | JsUndefined

definition verifySignature_try ::
  "(string \<Rightarrow> string \<Rightarrow> error + string) \<Rightarrow> string \<Rightarrow> string \<Rightarrow> js_value \<Rightarrow> error + bool" where
  "verifySignature_try verifyMessage msg signature expectedAddress =
     (case verifyMessage msg signature of
        Inl e \<Rightarrow> Inl e
      | Inr recoveredAddress \<Rightarrow>
          (case expectedAddress of
             JsString a \<Rightarrow> Inr (toLowerCase recoveredAddress = toLowerCase a)
           | JsUndefined \<Rightarrow> Inl (TypeError ''Cannot read properties of undefined'')))"

definition verifySignature ::
  "(string \<Rightarrow> string \<Rightarrow> error + string) \<Rightarrow> string \<Rightarrow> string \<Rightarrow> js_value \<Rightarrow> bool" where
  "verifySignature verifyMessage msg signature expectedAddress =
     (case verifySignature_try verifyMessage msg signature expectedAddress of
        Inl e \<Rightarrow> False
      | Inr b \<Rightarrow> b)"


section \<open>Views of the state and scenarios\<close>

text \<open>
  Two projections of the synchronizer's state: the fields of the service object, and what the
  mirror holds together with the cursor.
\<close>

definition service_fields ::
  "sync_state \<Rightarrow> bool \<times> bool \<times> nat \<times> nat option \<times> (nat \<times> nat) list" where
  "service_fields s =
     (contract s, isRunning s, lastProcessedBlock s, pollingInterval s, pending s)"

definition store_view :: "sync_state \<Rightarrow> nat \<times> transaction list \<times> user list" where
  "store_view s = (lastProcessedBlock s, transactions s, users s)"

text \<open>
  A schedule without overlap and without restart: no step that begins an iteration (a start,
  a tick, a launch) is taken while an iteration is in flight. \<open>cursor_inv\<close> is what holds
  along such a schedule: the cursor is still 0 while the contract handle is unset, the timer
  runs and iterations are in flight only once it is set, at most one iteration is in flight,
  and its \<^verbatim>\<open>toBlock\<close> is not below the cursor.
\<close>

fun begins :: "step \<Rightarrow> bool" where
  "begins (Start _ _) = True"
| "begins (Tick _) = True"
| "begins (Launch _) = True"
| "begins _ = False"

fun sequential :: "step list \<Rightarrow> sync_state \<Rightarrow> bool" where
  "sequential [] s = True"
| "sequential (st # steps) s =
     (st \<noteq> Restart \<and> (begins st \<longrightarrow> pending s = []) \<and> sequential steps (apply_step st s))"

definition cursor_inv :: "sync_state \<Rightarrow> bool" where
  "cursor_inv s =
     ((contract s \<or> lastProcessedBlock s = 0) \<and>
      (pollingInterval s \<noteq> None \<longrightarrow> contract s) \<and>
      (pending s \<noteq> [] \<longrightarrow> contract s) \<and>
      length (pending s) \<le> 1 \<and>
      (\<forall>w \<in> set (pending s). lastProcessedBlock s \<le> snd w))"

text \<open>
  The deployment of the contract's test fixture, by the account \<open>1\<close>, and the same ledger
  after its administrator paused it.
\<close>

definition deployed :: token_state where
  "deployed =
     constructor 1 1700000000 ''Gold Token'' ''GLDT'' ''GOLD'' ''oz'' 1000 ''Vault A, London''
       ''QmHash123456789''"

definition deployed_paused :: token_state where
  "deployed_paused = emit (Paused 1) (deployed\<lparr>paused := True\<rparr>)"

text \<open>Accounts, transaction hashes and event logs for the synchronizer.\<close>

definition alice :: string where
  "alice = ''0x00000000000000000000000000000000000A11CE''"

definition bob :: string where
  "bob = ''0x0000000000000000000000000000000000000B0B''"

definition zero_address :: string where
  "zero_address = ''0x0000000000000000000000000000000000000000''"

definition tx1 :: string where
  "tx1 = ''0x1111111111111111111111111111111111111111111111111111111111111111''"

definition tx2 :: string where
  "tx2 = ''0x2222222222222222222222222222222222222222222222222222222222222222''"

definition tx3 :: string where
  "tx3 = ''0x3333333333333333333333333333333333333333333333333333333333333333''"

definition transfer_400 :: event_log where
  "transfer_400 =
     \<lparr>transactionHash = tx1, log_blockNumber = 11, args = TransferArgs alice bob 400\<rparr>"

definition transfer_7 :: event_log where
  "transfer_7 =
     \<lparr>transactionHash = tx3, log_blockNumber = 12, args = TransferArgs bob alice 7\<rparr>"

text \<open>
  One mint transaction emits two events under one hash: the \<^verbatim>\<open>Transfer\<close> from the zero address
  of \<^verbatim>\<open>_update\<close>, then \<^verbatim>\<open>TokensMinted\<close>.
\<close>

definition mint_transfer_100 :: event_log where
  "mint_transfer_100 =
     \<lparr>transactionHash = tx2, log_blockNumber = 11, args = TransferArgs zero_address alice 100\<rparr>"

definition minted_100 :: event_log where
  "minted_100 =
     \<lparr>transactionHash = tx2, log_blockNumber = 11,
      args = TokensMintedArgs alice 100 ''Initial allocation''\<rparr>"

text \<open>
  Remote services, the store reachable in all of them: one whose head is block 10 and one
  whose head is block 15, without events; heads at block 12 with the events above, the block
  lookup working or timing out; and one on which every call to the provider fails.
\<close>

definition env_head10 :: remote where
  "env_head10 =
     \<lparr>getContract = None, getBlockNumber = Inr 10, queryFilter = (\<lambda>k a b. Inr []),
      getBlock = (\<lambda>n. Inr (Some 1700000000)), clock = 0,
      findOne_error = (\<lambda>h k. None), create_error = (\<lambda>h k. None),
      findOneAndUpdate_error = (\<lambda>a. None)\<rparr>"

definition env_head15 :: remote where
  "env_head15 =
     \<lparr>getContract = None, getBlockNumber = Inr 15, queryFilter = (\<lambda>k a b. Inr []),
      getBlock = (\<lambda>n. Inr (Some 1700000000)), clock = 0,
      findOne_error = (\<lambda>h k. None), create_error = (\<lambda>h k. None),
      findOneAndUpdate_error = (\<lambda>a. None)\<rparr>"

definition env_block_lookup_down :: remote where
  "env_block_lookup_down =
     \<lparr>getContract = None, getBlockNumber = Inr 12,
      queryFilter = (\<lambda>k a b. if k = ''Transfer'' \<and> a = 11 \<and> b = 12
                             then Inr [transfer_400] else Inr []),
      getBlock = (\<lambda>n. Inl (TransportError ''request timeout'')), clock = 0,
      findOne_error = (\<lambda>h k. None), create_error = (\<lambda>h k. None),
      findOneAndUpdate_error = (\<lambda>a. None)\<rparr>"

definition env_mint_tx :: remote where
  "env_mint_tx =
     \<lparr>getContract = None, getBlockNumber = Inr 12,
      queryFilter = (\<lambda>k a b. if k = ''Transfer'' \<and> a = 11 \<and> b = 12 then Inr [mint_transfer_100]
                             else if k = ''TokensMinted'' \<and> a = 11 \<and> b = 12 then Inr [minted_100]
                             else Inr []),
      getBlock = (\<lambda>n. Inr (Some 1700000000)), clock = 0,
      findOne_error = (\<lambda>h k. None), create_error = (\<lambda>h k. None),
      findOneAndUpdate_error = (\<lambda>a. None)\<rparr>"

definition env_two_transfers :: remote where
  "env_two_transfers =
     \<lparr>getContract = None, getBlockNumber = Inr 12,
      queryFilter = (\<lambda>k a b. if k = ''Transfer'' \<and> a = 11 \<and> b = 12
                             then Inr [transfer_400, transfer_7] else Inr []),
      getBlock = (\<lambda>n. Inr (Some 1700000000)), clock = 0,
      findOne_error = (\<lambda>h k. None), create_error = (\<lambda>h k. None),
      findOneAndUpdate_error = (\<lambda>a. None)\<rparr>"

text \<open>
  The provider with the two transfers, answering the event queries for the window of blocks
  11 to 12 only and failing on every other range.
\<close>

definition env_window_only :: remote where
  "env_window_only =
     env_two_transfers
       \<lparr>queryFilter := (\<lambda>k a b. if a = 11 \<and> b = 12 then queryFilter env_two_transfers k a b
                                else Inl (TransportError ''range not served''))\<rparr>"

definition env_down :: remote where
  "env_down =
     \<lparr>getContract = None, getBlockNumber = Inl (TransportError ''network timeout''),
      queryFilter = (\<lambda>k a b. Inl (TransportError ''network timeout'')),
      getBlock = (\<lambda>n. Inl (TransportError ''network timeout'')), clock = 0,
      findOne_error = (\<lambda>h k. None), create_error = (\<lambda>h k. None),
      findOneAndUpdate_error = (\<lambda>a. None)\<rparr>"

text \<open>The service started against the provider whose head is block 10.\<close>

definition started_at_10 :: sync_state where
  "started_at_10 = startListening env_head10 env_head10 EventSyncService"

text \<open>A signature check whose recovery answers \<open>alice\<close> for one signature and throws otherwise.\<close>

definition recover_alice :: "string \<Rightarrow> string \<Rightarrow> error + string" where
  "recover_alice msg signature =
     (if signature = ''0xsigned-by-alice'' then Inr alice
      else Inl (TypeError ''invalid signature''))"

section \<open>The ledger's checks\<close>

lemma deployed_roles: "roles deployed r a = (a = 1)"
  by (cases r)
    (simp_all add: deployed_def constructor_def Let_def grantRole_internal_def emit_def zeroed_def)

lemma deployed_whitelist: "whitelist deployed a = (a = 1)"
  by (simp add: deployed_def constructor_def Let_def grantRole_internal_def emit_def zeroed_def)

lemma deployed_flags: "\<not> paused deployed" "totalSupply deployed = 0"
  by (simp_all add: deployed_def constructor_def Let_def grantRole_internal_def emit_def zeroed_def)

lemma deployed_paused_fields:
  "roles deployed_paused r a = (a = 1)" "whitelist deployed_paused a = (a = 1)"
  "paused deployed_paused"
  by (simp_all add: deployed_paused_def emit_def deployed_roles deployed_whitelist)

lemma pause_deployed: "pause 1 deployed = Inr deployed_paused"
  by (simp add: pause_def onlyRole_def whenNotPaused_def deployed_roles deployed_flags
      deployed_paused_def)

lemma word_pos_iff: "0 < (w :: uint256) \<longleftrightarrow> w \<noteq> 0"
  by (simp add: word_neq_0_conv)

lemma mint_unfold:
  "mint sender to amt why s =
     (if \<not> roles s ISSUER_ROLE sender
      then Inl (AccessControlUnauthorizedAccount sender ISSUER_ROLE)
      else if paused s then Inl EnforcedPause
      else if \<not> whitelist s to then Inl (Require ''RWAToken: recipient not whitelisted'')
      else if amt = 0 then Inl (Require ''RWAToken: amount must be greater than 0'')
      else if to = 0 then Inl (ERC20InvalidReceiver 0)
      else if 2 ^ 256 \<le> unat (totalSupply s) + unat amt then Inl Panic_0x11
      else Inr (s\<lparr>totalSupply := totalSupply s + amt,
                  balances := (balances s)(to := balances s to + amt),
                  emitted := emitted s @ [Transfer 0 to amt, TokensMinted to amt why]\<rparr>))"
  by (simp add: mint_def onlyRole_def whenNotPaused_def mint_internal_def update_internal_def
      ERC20_update_def emit_def Let_def word_pos_iff)

text \<open>
  C4, as the claim states it, fails: on the paused ledger the issuer's mint to an address that
  is not whitelisted is rejected with \<open>EnforcedPause\<close>, not with the whitelist error.
\<close>

theorem mint_paused_before_whitelist_counterexample:
  "pause 1 deployed = Inr deployed_paused \<and>
   roles deployed_paused ISSUER_ROLE 1 \<and> \<not> whitelist deployed_paused 2 \<and>
   mint 1 2 100 ''Test'' deployed_paused = Inl EnforcedPause \<and>
   mint 1 2 100 ''Test'' deployed_paused \<noteq> Inl (Require ''RWAToken: recipient not whitelisted'')"
  by (simp add: pause_deployed deployed_paused_fields mint_def onlyRole_def whenNotPaused_def)

text \<open>
  C4 (amended): \<open>mint\<close> reports the first failing check in the order: caller without the issuer
  role, ledger paused, recipient not whitelisted, amount zero; past these it fails only for
  the zero address as recipient or a total supply that would exceed 256 bits, and otherwise
  succeeds, adding the amount to the supply and to the recipient's balance and emitting
  \<open>Transfer\<close> then \<open>TokensMinted\<close>. So it succeeds exactly when the caller is an issuer, the
  ledger is not paused, the recipient is whitelisted and not the zero address, the amount is
  positive and the supply does not overflow.
\<close>

theorem mint_first_failing_check:
  "mint sender to amt why s =
     (if \<not> roles s ISSUER_ROLE sender
      then Inl (AccessControlUnauthorizedAccount sender ISSUER_ROLE)
      else if paused s then Inl EnforcedPause
      else if \<not> whitelist s to then Inl (Require ''RWAToken: recipient not whitelisted'')
      else if amt = 0 then Inl (Require ''RWAToken: amount must be greater than 0'')
      else if to = 0 then Inl (ERC20InvalidReceiver 0)
      else if 2 ^ 256 \<le> unat (totalSupply s) + unat amt then Inl Panic_0x11
      else Inr (s\<lparr>totalSupply := totalSupply s + amt,
                  balances := (balances s)(to := balances s to + amt),
                  emitted := emitted s @ [Transfer 0 to amt, TokensMinted to amt why]\<rparr>))
   \<and> ((\<exists>s'. mint sender to amt why s = Inr s') \<longleftrightarrow>
        roles s ISSUER_ROLE sender \<and> \<not> paused s \<and> whitelist s to \<and> 0 < amt \<and> to \<noteq> 0
        \<and> unat (totalSupply s) + unat amt < 2 ^ 256)"
proof -
  have "(\<exists>s'. mint sender to amt why s = Inr s') \<longleftrightarrow>
        roles s ISSUER_ROLE sender \<and> \<not> paused s \<and> whitelist s to \<and> 0 < amt \<and> to \<noteq> 0
        \<and> unat (totalSupply s) + unat amt < 2 ^ 256"
    unfolding mint_unfold word_pos_iff by (simp add: not_le)
  with mint_unfold [of sender to amt why s] show ?thesis by blast
qed

theorem mint_first_failing_check_witness:
  "mint 2 1 100 ''Test'' deployed_paused = Inl (AccessControlUnauthorizedAccount 2 ISSUER_ROLE) \<and>
   mint 1 2 100 ''Test'' deployed_paused = Inl EnforcedPause \<and>
   mint 1 2 100 ''Test'' deployed = Inl (Require ''RWAToken: recipient not whitelisted'') \<and>
   mint 1 1 0 ''Test'' deployed = Inl (Require ''RWAToken: amount must be greater than 0'') \<and>
   (\<exists>s'. mint 1 1 100 ''Test'' deployed = Inr s')"
  using mint_first_failing_check [of 2 1 100 "''Test''" deployed_paused]
    mint_first_failing_check [of 1 2 100 "''Test''" deployed_paused]
    mint_first_failing_check [of 1 2 100 "''Test''" deployed]
    mint_first_failing_check [of 1 1 0 "''Test''" deployed]
    mint_first_failing_check [of 1 1 100 "''Test''" deployed]
  by (simp add: deployed_paused_fields deployed_roles deployed_whitelist deployed_flags)


text \<open>
  C5, as the claim states it, fails: the administrator's second addition of a whitelisted
  address and his removal of an address that is not whitelisted both revert.
\<close>

theorem whitelist_single_not_idempotent_counterexample:
  "roles deployed ADMIN_ROLE 1 \<and> whitelist deployed 1 \<and>
   addToWhitelist 1 1 deployed = Inl (Require ''RWAToken: already whitelisted'') \<and>
   \<not> whitelist deployed 2 \<and>
   removeFromWhitelist 1 2 deployed = Inl (Require ''RWAToken: not whitelisted'')"
  by (simp add: addToWhitelist_def removeFromWhitelist_def onlyRole_def deployed_roles
      deployed_whitelist)

lemma batchAdd_loop_whitelist:
  "whitelist (batchAdd_loop accounts s) a \<longleftrightarrow> whitelist s a \<or> (a \<in> set accounts \<and> a \<noteq> 0)"
  by (induction accounts arbitrary: s) (auto simp: emit_def)

lemma batchAdd_loop_emitted:
  "\<exists>added. distinct added \<and> set added = {a \<in> set accounts. a \<noteq> 0 \<and> \<not> whitelist s a} \<and>
     emitted (batchAdd_loop accounts s) = emitted s @ map (\<lambda>a. WhitelistUpdated a True) added"
proof (induction accounts arbitrary: s)
  case Nil
  then show ?case by simp
next
  case (Cons a accounts)
  show ?case
  proof (cases "a \<noteq> 0 \<and> \<not> whitelist s a")
    case True
    let ?s' = "emit (WhitelistUpdated a True) (s\<lparr>whitelist := (whitelist s)(a := True)\<rparr>)"
    from Cons.IH [of ?s'] obtain added where
      d: "distinct added" and
      st: "set added = {b \<in> set accounts. b \<noteq> 0 \<and> \<not> whitelist ?s' b}" and
      em: "emitted (batchAdd_loop accounts ?s')
             = emitted ?s' @ map (\<lambda>a. WhitelistUpdated a True) added"
      by blast
    have "a \<notin> set added" using st by (simp add: emit_def)
    with d have "distinct (a # added)" by simp
    moreover have "set (a # added) = {b \<in> set (a # accounts). b \<noteq> 0 \<and> \<not> whitelist s b}"
      using st True by (auto simp: emit_def)
    moreover have "emitted (batchAdd_loop (a # accounts) s)
        = emitted s @ map (\<lambda>a. WhitelistUpdated a True) (a # added)"
      using em True by (simp add: emit_def)
    ultimately show ?thesis by blast
  next
    case False
    from Cons.IH [of s] obtain added where
      d: "distinct added" and
      st: "set added = {b \<in> set accounts. b \<noteq> 0 \<and> \<not> whitelist s b}" and
      em: "emitted (batchAdd_loop accounts s)
             = emitted s @ map (\<lambda>a. WhitelistUpdated a True) added"
      by blast
    have "set added = {b \<in> set (a # accounts). b \<noteq> 0 \<and> \<not> whitelist s b}"
      using st False by auto
    with d em False show ?thesis by auto
  qed
qed

text \<open>
  C5 (amended): for a caller with the administrator role, the single-address addition of an
  address already whitelisted (and not zero) reverts with \<open>already whitelisted\<close> and the
  removal of an address not whitelisted reverts with \<open>not whitelisted\<close>; the batch addition
  succeeds on every array, whitelists exactly the non-zero entries, and emits one
  \<open>WhitelistUpdated\<close> for each distinct non-zero entry that was not whitelisted before,
  passing over zero, duplicate and already whitelisted entries without failing.
\<close>

theorem whitelist_single_rejects_batch_skips:
  assumes "roles s ADMIN_ROLE sender"
  shows "(a \<noteq> 0 \<and> whitelist s a \<longrightarrow>
            addToWhitelist sender a s = Inl (Require ''RWAToken: already whitelisted'')) \<and>
         (\<not> whitelist s b \<longrightarrow>
            removeFromWhitelist sender b s = Inl (Require ''RWAToken: not whitelisted'')) \<and>
         (\<exists>s' added. batchAddToWhitelist sender accounts s = Inr s' \<and>
            (\<forall>c. whitelist s' c \<longleftrightarrow> whitelist s c \<or> (c \<in> set accounts \<and> c \<noteq> 0)) \<and>
            distinct added \<and> set added = {c \<in> set accounts. c \<noteq> 0 \<and> \<not> whitelist s c} \<and>
            emitted s' = emitted s @ map (\<lambda>c. WhitelistUpdated c True) added)"
proof -
  from batchAdd_loop_emitted [of accounts s] obtain added where
    "distinct added" "set added = {c \<in> set accounts. c \<noteq> 0 \<and> \<not> whitelist s c}"
    "emitted (batchAdd_loop accounts s) = emitted s @ map (\<lambda>c. WhitelistUpdated c True) added"
    by blast
  with assms have "\<exists>s' added. batchAddToWhitelist sender accounts s = Inr s' \<and>
            (\<forall>c. whitelist s' c \<longleftrightarrow> whitelist s c \<or> (c \<in> set accounts \<and> c \<noteq> 0)) \<and>
            distinct added \<and> set added = {c \<in> set accounts. c \<noteq> 0 \<and> \<not> whitelist s c} \<and>
            emitted s' = emitted s @ map (\<lambda>c. WhitelistUpdated c True) added"
    by (auto simp: batchAddToWhitelist_def onlyRole_def batchAdd_loop_whitelist)
  with assms show ?thesis
    by (simp add: addToWhitelist_def removeFromWhitelist_def onlyRole_def)
qed

theorem whitelist_single_rejects_batch_skips_witness:
  "roles deployed ADMIN_ROLE 1 \<and> (1 :: address) \<noteq> 0 \<and> whitelist deployed 1 \<and>
   \<not> whitelist deployed 2 \<and>
   addToWhitelist 1 1 deployed = Inl (Require ''RWAToken: already whitelisted'') \<and>
   removeFromWhitelist 1 2 deployed = Inl (Require ''RWAToken: not whitelisted'') \<and>
   (\<exists>s'. batchAddToWhitelist 1 [0, 2, 2, 1] deployed = Inr s' \<and>
      whitelist s' 2 \<and> whitelist s' 1 \<and> \<not> whitelist s' 0 \<and> \<not> whitelist s' 3)"
proof -
  have adm: "roles deployed ADMIN_ROLE 1" by (simp add: deployed_roles)
  from whitelist_single_rejects_batch_skips [OF adm, of 1 2 "[0, 2, 2, 1]"]
  show ?thesis
    by (auto simp: deployed_roles deployed_whitelist)
qed

text \<open>
  C9: the constructor grants the deployer the three roles, whitelists the deployer and emits
  \<open>WhitelistUpdated (deployer, true)\<close>, then emits \<open>AssetMetadataUpdated\<close> with the metadata
  given; so the whitelist is not empty, and the deployer (never the zero address) can mint any
  positive amount to itself on the fresh ledger.
\<close>

theorem constructor_sets_up_deployer:
  "roles (constructor deployer now nm smb ct u tq sl ch) DEFAULT_ADMIN_ROLE deployer \<and>
   roles (constructor deployer now nm smb ct u tq sl ch) ADMIN_ROLE deployer \<and>
   roles (constructor deployer now nm smb ct u tq sl ch) ISSUER_ROLE deployer \<and>
   whitelist (constructor deployer now nm smb ct u tq sl ch) deployer \<and>
   (\<exists>a. whitelist (constructor deployer now nm smb ct u tq sl ch) a) \<and>
   emitted (constructor deployer now nm smb ct u tq sl ch) =
     [RoleGranted DEFAULT_ADMIN_ROLE deployer deployer, RoleGranted ADMIN_ROLE deployer deployer,
      RoleGranted ISSUER_ROLE deployer deployer, WhitelistUpdated deployer True,
      AssetMetadataUpdated ct u tq sl ch] \<and>
   (deployer \<noteq> 0 \<and> 0 < amt \<longrightarrow>
      (\<exists>s'. mint deployer deployer amt why (constructor deployer now nm smb ct u tq sl ch) = Inr s'
         \<and> balances s' deployer = amt \<and> totalSupply s' = amt))"
proof -
  let ?s = "constructor deployer now nm smb ct u tq sl ch"
  have r: "roles ?s DEFAULT_ADMIN_ROLE deployer" "roles ?s ADMIN_ROLE deployer"
    "roles ?s ISSUER_ROLE deployer"
    by (simp_all add: constructor_def Let_def grantRole_internal_def emit_def zeroed_def)
  have w: "whitelist ?s deployer"
    by (simp add: constructor_def Let_def grantRole_internal_def emit_def zeroed_def)
  have e: "emitted ?s =
     [RoleGranted DEFAULT_ADMIN_ROLE deployer deployer, RoleGranted ADMIN_ROLE deployer deployer,
      RoleGranted ISSUER_ROLE deployer deployer, WhitelistUpdated deployer True,
      AssetMetadataUpdated ct u tq sl ch]"
    by (simp add: constructor_def Let_def grantRole_internal_def emit_def zeroed_def)
  have z: "\<not> paused ?s" "totalSupply ?s = 0" "balances ?s deployer = 0"
    by (simp_all add: constructor_def Let_def grantRole_internal_def emit_def zeroed_def)
  have lt: "unat amt < 2 ^ 256"
    using unsigned_less [of amt, where 'a = nat] by simp
  have m: "deployer \<noteq> 0 \<and> 0 < amt \<longrightarrow>
      (\<exists>s'. mint deployer deployer amt why ?s = Inr s'
         \<and> balances s' deployer = amt \<and> totalSupply s' = amt)"
    using lt by (simp add: mint_unfold r w z word_pos_iff)
  from r w e m show ?thesis by blast
qed

theorem constructor_sets_up_deployer_witness:
  "(1 :: address) \<noteq> 0 \<and> (0 :: uint256) < 100 \<and>
   roles deployed ISSUER_ROLE 1 \<and> whitelist deployed 1 \<and>
   (\<exists>s'. mint 1 1 100 ''Initial allocation'' deployed = Inr s' \<and> balances s' 1 = 100
      \<and> totalSupply s' = 100)"
  using constructor_sets_up_deployer [of 1 1700000000 "''Gold Token''" "''GLDT''" "''GOLD''"
      "''oz''" 1000 "''Vault A, London''" "''QmHash123456789''" 100 "''Initial allocation''"]
  by (simp add: deployed_def)

section \<open>Signature verification is total\<close>

lemma lower_alice: "toLowerCase alice = ''0x00000000000000000000000000000000000a11ce''"
  by code_simp

lemma lower_bob: "toLowerCase bob = ''0x0000000000000000000000000000000000000b0b''"
  by code_simp

lemma lower_zero_address: "toLowerCase zero_address = zero_address"
  by code_simp

lemma lower_fixed:
  "toLowerCase ''0x00000000000000000000000000000000000a11ce''
     = ''0x00000000000000000000000000000000000a11ce''"
  "toLowerCase ''0x0000000000000000000000000000000000000b0b''
     = ''0x0000000000000000000000000000000000000b0b''"
  by code_simp+

lemma toLowerCase_idem: "toLowerCase (toLowerCase x) = toLowerCase x"
  by (induction x) (auto simp: toLowerCase_def Let_def)

text \<open>
  C10: \<open>verifySignature\<close> answers a boolean on every input, its \<^verbatim>\<open>catch\<close> turning each
  exception of the body into \<open>False\<close>: it is \<open>True\<close> exactly when the recovery succeeds and the
  recovered address equals the expected one after both are lower-cased, and \<open>False\<close> whenever
  the recovery throws.
\<close>

theorem verifySignature_total:
  "verifySignature vm m sg x =
     (\<exists>addr a. vm m sg = Inr addr \<and> x = JsString a \<and> toLowerCase addr = toLowerCase a) \<and>
   verifySignature vm m sg x = (verifySignature_try vm m sg x = Inr True) \<and>
   (\<forall>e. vm m sg = Inl e \<longrightarrow> \<not> verifySignature vm m sg x)"
  by (auto simp: verifySignature_def verifySignature_try_def split: sum.splits js_value.splits)

theorem verifySignature_total_witness:
  "verifySignature recover_alice ''Sign this message'' ''0xsigned-by-alice''
     (JsString ''0x00000000000000000000000000000000000a11ce'') \<and>
   recover_alice ''Sign this message'' ''0xforged'' = Inl (TypeError ''invalid signature'') \<and>
   \<not> verifySignature recover_alice ''Sign this message'' ''0xforged''
       (JsString ''0x00000000000000000000000000000000000a11ce'')"
proof -
  have l: "toLowerCase ''0x00000000000000000000000000000000000a11ce'' = toLowerCase alice"
    using toLowerCase_idem [of alice] by (simp add: lower_alice)
  from verifySignature_total [of recover_alice "''Sign this message''" "''0xsigned-by-alice''"
      "JsString ''0x00000000000000000000000000000000000a11ce''"]
    verifySignature_total [of recover_alice "''Sign this message''" "''0xforged''"
      "JsString ''0x00000000000000000000000000000000000a11ce''"]
  show ?thesis
    by (simp add: recover_alice_def l)
qed


section \<open>The synchronizer\<close>

subsection \<open>What an iteration leaves alone\<close>

lemmas process_defs = processTransferEvent_def processMintEvent_def processBurnEvent_def
  processWhitelistEvent_def processPauseEvent_def

lemma service_fields_console [simp]:
  "service_fields (console_log m s) = service_fields s"
  "service_fields (console_error p m s) = service_fields s"
  by (simp_all add: service_fields_def console_log_def console_error_def)

lemma service_fields_store [simp]:
  "service_fields (s\<lparr>transactions := db\<rparr>) = service_fields s"
  "service_fields (s\<lparr>users := us\<rparr>) = service_fields s"
  by (simp_all add: service_fields_def)

lemma processTransferEvent_service [simp]:
  "service_fields (processTransferEvent env ev s) = service_fields s"
  by (simp add: processTransferEvent_def Let_def split: option.splits sum.splits event_args.splits)

lemma processMintEvent_service [simp]:
  "service_fields (processMintEvent env ev s) = service_fields s"
  by (simp add: processMintEvent_def Let_def split: option.splits sum.splits event_args.splits)

lemma processBurnEvent_service [simp]:
  "service_fields (processBurnEvent env ev s) = service_fields s"
  by (simp add: processBurnEvent_def Let_def split: option.splits sum.splits event_args.splits)

lemma processWhitelistEvent_service [simp]:
  "service_fields (processWhitelistEvent env ev s) = service_fields s"
  by (simp add: processWhitelistEvent_def Let_def split: option.splits sum.splits event_args.splits)

lemma processPauseEvent_service [simp]:
  "service_fields (processPauseEvent env ev p s) = service_fields s"
  by (simp add: processPauseEvent_def Let_def split: option.splits sum.splits event_args.splits)

lemma fold_service:
  assumes "\<And>x s. service_fields (f x s) = service_fields s"
  shows "service_fields (fold f xs s) = service_fields s"
  using assms by (induction xs arbitrary: s) simp_all

lemma queryEvents_catch_service [simp]:
  "service_fields (queryEvents_catch e s) = service_fields s"
  by (simp add: queryEvents_catch_def)

lemma queryEvents_service [simp]:
  "service_fields (queryEvents env a b s) = service_fields s"
  by (simp add: queryEvents_def Let_def fold_service split: sum.splits)

lemma queryEvents_fields [simp]:
  "contract (queryEvents env a b s) = contract s"
  "isRunning (queryEvents env a b s) = isRunning s"
  "lastProcessedBlock (queryEvents env a b s) = lastProcessedBlock s"
  "pollingInterval (queryEvents env a b s) = pollingInterval s"
  "pending (queryEvents env a b s) = pending s"
  using queryEvents_service [of env a b s] by (simp_all add: service_fields_def)

lemma pollEvents_fields [simp]:
  "contract (pollEvents env s) = contract s"
  "isRunning (pollEvents env s) = isRunning s"
  "pollingInterval (pollEvents env s) = pollingInterval s"
  "pending (pollEvents env s) = pending s"
  by (simp_all add: pollEvents_def pollEvents_catch_def console_error_def Let_def
      split: sum.splits)

lemma pollEvents_begin_fields [simp]:
  "contract (pollEvents_begin env s) = contract s"
  "isRunning (pollEvents_begin env s) = isRunning s"
  "pollingInterval (pollEvents_begin env s) = pollingInterval s"
  "lastProcessedBlock (pollEvents_begin env s) = lastProcessedBlock s"
  "store_view (pollEvents_begin env s) = store_view s"
  by (simp_all add: pollEvents_begin_def pollEvents_catch_def console_error_def Let_def
      store_view_def split: sum.splits)

lemma pollEvents_finish_fields [simp]:
  "contract (pollEvents_finish env w s) = contract s"
  "isRunning (pollEvents_finish env w s) = isRunning s"
  "pollingInterval (pollEvents_finish env w s) = pollingInterval s"
  "pending (pollEvents_finish env w s) = pending s"
  "lastProcessedBlock (pollEvents_finish env w s) = snd w"
  by (simp_all add: pollEvents_finish_def Let_def)

subsection \<open>The cursor\<close>

lemma pollEvents_cursor_mono:
  "lastProcessedBlock s \<le> lastProcessedBlock (pollEvents env s)"
  by (simp add: pollEvents_def pollEvents_catch_def console_error_def Let_def BLOCKS_PER_QUERY_def
      split: sum.splits)

lemma pollEvents_unfold:
  "getBlockNumber env = Inr head \<Longrightarrow> lastProcessedBlock s < head \<Longrightarrow>
     pollEvents env s =
       (queryEvents env (lastProcessedBlock s + 1)
          (min (lastProcessedBlock s + BLOCKS_PER_QUERY) head) s)
         \<lparr>lastProcessedBlock := min (lastProcessedBlock s + BLOCKS_PER_QUERY) head\<rparr>"
  by (simp add: pollEvents_def Let_def BLOCKS_PER_QUERY_def add.commute)

lemma pollEvents_noop:
  "getBlockNumber env = Inr head \<Longrightarrow> head \<le> lastProcessedBlock s \<Longrightarrow> pollEvents env s = s"
  by (simp add: pollEvents_def)

lemma pollEvents_head_error:
  "getBlockNumber env = Inl e \<Longrightarrow>
     pollEvents env s =
       (if str_includes (message e) ''filter not found'' then s
        else s\<lparr>console := console s @ [ConsoleError ''Error polling events:'' (message e)]\<rparr>)"
  by (simp add: pollEvents_def pollEvents_catch_def console_error_def)

lemma pollEvents_begin_pending:
  "pending (pollEvents_begin env s) = pending s \<or>
   (\<exists>head. getBlockNumber env = Inr head \<and> lastProcessedBlock s < head \<and>
      pending (pollEvents_begin env s) =
        pending s @ [(lastProcessedBlock s + 1, min (lastProcessedBlock s + BLOCKS_PER_QUERY) head)])"
  by (simp add: pollEvents_begin_def pollEvents_catch_def console_error_def Let_def
      BLOCKS_PER_QUERY_def add.commute split: sum.splits)

text \<open>The two steps, taken one right after the other, are the iteration.\<close>

lemma pollEvents_two_steps:
  "pollEvents env s =
     (if pending (pollEvents_begin env s) = pending s then pollEvents_begin env s
      else pollEvents_finish env (last (pending (pollEvents_begin env s))) s)"
  by (simp add: pollEvents_def pollEvents_begin_def pollEvents_finish_def pollEvents_catch_def
      console_error_def Let_def split: sum.splits)

lemma pollEvents_begin_inv:
  assumes "cursor_inv s" "contract s" "pending s = []"
  shows "cursor_inv (pollEvents_begin env s)"
  using assms pollEvents_begin_pending [of env s]
  by (auto simp: cursor_inv_def BLOCKS_PER_QUERY_def)

lemma initialize_step:
  "cursor_inv s \<Longrightarrow> \<not> contract s \<Longrightarrow>
     lastProcessedBlock s \<le> lastProcessedBlock (snd (initialize e0 s)) \<and>
     (fst (initialize e0 s) \<longrightarrow> contract (snd (initialize e0 s))) \<and>
     pending (snd (initialize e0 s)) = pending s \<and>
     cursor_inv (snd (initialize e0 s))"
  by (simp add: cursor_inv_def initialize_def console_log_def console_error_def Let_def
      split: option.splits sum.splits)

lemma startListening_step:
  assumes "cursor_inv s" "pending s = []"
  shows "cursor_inv (startListening e0 e1 s) \<and>
     lastProcessedBlock s \<le> lastProcessedBlock (startListening e0 e1 s)"
proof (cases "isRunning s")
  case True
  with assms show ?thesis
    by (simp add: startListening_def console_log_def cursor_inv_def)
next
  case notRunning: False
  obtain ok s1 where init: "(if \<not> contract s then initialize e0 s else (True, s)) = (ok, s1)"
    by (cases "if \<not> contract s then initialize e0 s else (True, s)")
  have s1: "lastProcessedBlock s \<le> lastProcessedBlock s1" "ok \<longrightarrow> contract s1"
    "pending s1 = []" "cursor_inv s1"
    using init assms initialize_step [OF assms(1), of e0]
    by (auto split: if_splits)
  show ?thesis
  proof (cases ok)
    case False
    with notRunning init s1 show ?thesis
      by (simp add: startListening_def console_error_def cursor_inv_def)
  next
    case True
    let ?s6 = "console_log ''Event polling started successfully''
        ((console_log (''Polling interval: '' @ decimal (POLLING_INTERVAL_MS div 1000) @ ''s'')
           (console_log ''Starting blockchain event polling...'' (s1\<lparr>isRunning := True\<rparr>)))
         \<lparr>pollingInterval := Some POLLING_INTERVAL_MS\<rparr>)"
    have eq: "startListening e0 e1 s = pollEvents_begin e1 ?s6"
      using notRunning init True by (simp add: startListening_def Let_def)
    have c: "contract ?s6" and p: "pending ?s6 = []"
      and l: "lastProcessedBlock ?s6 = lastProcessedBlock s1"
      using s1 True by (simp_all add: console_log_def)
    have i: "cursor_inv ?s6"
      using s1 True by (simp add: cursor_inv_def console_log_def)
    from pollEvents_begin_inv [OF i c p, of e1] s1 l show ?thesis
      unfolding eq by simp
  qed
qed

lemma apply_step_sequential:
  assumes "cursor_inv s" "st \<noteq> Restart" "begins st \<longrightarrow> pending s = []"
  shows "cursor_inv (apply_step st s) \<and>
     lastProcessedBlock s \<le> lastProcessedBlock (apply_step st s)"
proof (cases st)
  case (Start e0 e1)
  with assms startListening_step [of s e0 e1] show ?thesis by simp
next
  case (Tick e)
  with assms show ?thesis
    by (auto simp: cursor_inv_def pollEvents_cursor_mono)
next
  case (Launch e)
  with assms pollEvents_begin_inv [of s e] show ?thesis
    by (auto simp: cursor_inv_def)
next
  case (Finish i e)
  show ?thesis
  proof (cases "i < length (pending s)")
    case False
    with Finish assms show ?thesis by simp
  next
    case True
    with assms obtain w where w: "pending s = [w]" and i: "i = 0"
      by (cases "pending s") (auto simp: cursor_inv_def)
    with Finish assms show ?thesis
      by (simp add: cursor_inv_def)
  qed
next
  case Stop
  with assms show ?thesis
    by (simp add: stopListening_def cursor_inv_def console_log_def Let_def split: option.splits)
next
  case Restart
  with assms show ?thesis by simp
qed

lemma run_sequential:
  "cursor_inv s \<Longrightarrow> sequential steps s \<Longrightarrow>
     cursor_inv (run steps s) \<and> lastProcessedBlock s \<le> lastProcessedBlock (run steps s)"
proof (induction steps arbitrary: s)
  case Nil
  then show ?case by simp
next
  case (Cons st steps)
  from Cons.prems have a: "st \<noteq> Restart" "begins st \<longrightarrow> pending s = []"
    and r: "sequential steps (apply_step st s)" by simp_all
  from apply_step_sequential [OF Cons.prems(1) a]
  have i: "cursor_inv (apply_step st s)"
    and l: "lastProcessedBlock s \<le> lastProcessedBlock (apply_step st s)" by simp_all
  from Cons.IH [OF i r] l show ?case by simp
qed

lemma run_append: "run (xs @ ys) s = run ys (run xs s)"
  by (induction xs arbitrary: s) simp_all

lemma sequential_append:
  "sequential (xs @ ys) s \<longleftrightarrow> sequential xs s \<and> sequential ys (run xs s)"
  by (induction xs arbitrary: s) auto

lemma cursor_inv_fresh: "cursor_inv EventSyncService"
  by (simp add: cursor_inv_def EventSyncService_def)

lemma started_at_10_fields:
  "contract started_at_10" "isRunning started_at_10" "lastProcessedBlock started_at_10 = 10"
  "pollingInterval started_at_10 = Some 15000" "pending started_at_10 = []"
  "transactions started_at_10 = []"
  "users started_at_10 = []" "filter is_error_line (console started_at_10) = []"
  by (simp_all add: started_at_10_def startListening_def EventSyncService_def initialize_def
      env_head10_def console_log_def pollEvents_begin_def POLLING_INTERVAL_MS_def Let_def)

lemma started_at_10_run: "started_at_10 = run [Start env_head10 env_head10] EventSyncService"
  by (simp add: started_at_10_def)

lemma env_heads:
  "getBlockNumber env_head10 = Inr 10" "getBlockNumber env_head15 = Inr 15"
  "getBlockNumber env_two_transfers = Inr 12" "getBlockNumber env_block_lookup_down = Inr 12"
  "getBlockNumber env_mint_tx = Inr 12"
  "getBlockNumber env_down = Inl (TransportError ''network timeout'')"
  "getContract env_down = None" "getContract env_head10 = None"
  by (simp_all add: env_head10_def env_head15_def env_two_transfers_def
      env_block_lookup_down_def env_mint_tx_def env_down_def)

lemma restart_fields:
  "lastProcessedBlock (restart s) = 0" "\<not> contract (restart s)" "\<not> isRunning (restart s)"
  "pollingInterval (restart s) = None" "pending (restart s) = []"
  "transactions (restart s) = transactions s" "users (restart s) = users s"
  by (simp_all add: restart_def EventSyncService_def)

lemma startListening_after_restart:
  "getContract env0 = None \<Longrightarrow> getBlockNumber env0 = Inr n \<Longrightarrow>
     lastProcessedBlock (startListening env0 env1 (restart s)) = n \<and>
     isRunning (startListening env0 env1 (restart s))"
  by (simp add: startListening_def initialize_def restart_fields Let_def console_log_def)

text \<open>
  C1, as the claim states it, fails, in each of its three parts. The window of blocks 11 to 12
  holds a transfer whose recording fails because the block lookup times out: nothing is
  recorded, and the cursor advances from 10 to 12 all the same. An iteration launched at
  cursor 10 under head 12 is still in flight when the next one, under head 15, runs and sets
  the cursor to 15; the first then finishes and sets it back to 12. And a restart of the
  process at cursor 12 leaves a service whose cursor is 0; when its initialization fails on
  the head query, the next call of \<^verbatim>\<open>startListening\<close> starts it polling from there.
\<close>

theorem cursor_passes_unrecorded_event_counterexample:
  "queryFilter env_block_lookup_down ''Transfer'' 11 12 = Inr [transfer_400] \<and>
   lastProcessedBlock started_at_10 = 10 \<and>
   transactions (pollEvents env_block_lookup_down started_at_10) = [] \<and>
   lastProcessedBlock (pollEvents env_block_lookup_down started_at_10) = 12 \<and>
   pending (run [Launch env_two_transfers] started_at_10) = [(11, 12)] \<and>
   lastProcessedBlock (run [Launch env_two_transfers, Tick env_head15] started_at_10) = 15 \<and>
   lastProcessedBlock
     (run [Launch env_two_transfers, Tick env_head15, Finish 0 env_two_transfers] started_at_10)
     = 12 \<and>
   lastProcessedBlock (run [Tick env_two_transfers] started_at_10) = 12 \<and>
   lastProcessedBlock (run [Tick env_two_transfers, Restart] started_at_10) = 0 \<and>
   isRunning
     (run [Tick env_two_transfers, Restart, Start env_down env_down, Start env_head10 env_head10]
        started_at_10) \<and>
   lastProcessedBlock
     (run [Tick env_two_transfers, Restart, Start env_down env_down, Start env_head10 env_head10]
        started_at_10) = 0"
proof -
  have a: "queryFilter env_block_lookup_down ''Transfer'' 11 12 = Inr [transfer_400] \<and>
      lastProcessedBlock started_at_10 = 10 \<and>
      transactions (pollEvents env_block_lookup_down started_at_10) = [] \<and>
      lastProcessedBlock (pollEvents env_block_lookup_down started_at_10) = 12"
    by (simp add: pollEvents_def env_block_lookup_down_def BLOCKS_PER_QUERY_def Let_def
        queryEvents_def processTransferEvent_def Transaction_findOne_def transfer_400_def
        console_error_def started_at_10_fields)
  let ?l = "pollEvents_begin env_two_transfers started_at_10"
  have l: "pending ?l = [(11, 12)]"
    by (simp add: pollEvents_begin_def env_heads started_at_10_fields BLOCKS_PER_QUERY_def)
  have t: "lastProcessedBlock (pollEvents env_head15 ?l) = 15"
    by (simp add: pollEvents_unfold [OF env_heads(2)] started_at_10_fields BLOCKS_PER_QUERY_def)
  have b: "pending (run [Launch env_two_transfers] started_at_10) = [(11, 12)] \<and>
      lastProcessedBlock (run [Launch env_two_transfers, Tick env_head15] started_at_10) = 15 \<and>
      lastProcessedBlock
        (run [Launch env_two_transfers, Tick env_head15, Finish 0 env_two_transfers]
           started_at_10) = 12"
    using l t by (simp add: started_at_10_fields)
  have u: "lastProcessedBlock (pollEvents env_two_transfers started_at_10) = 12"
    by (simp add: pollEvents_unfold [OF env_heads(3)] started_at_10_fields BLOCKS_PER_QUERY_def)
  let ?r = "restart (pollEvents env_two_transfers started_at_10)"
  let ?f = "startListening env_down env_down ?r"
  have f: "contract ?f" "\<not> isRunning ?f" "lastProcessedBlock ?f = 0"
    by (simp_all add: startListening_def initialize_def restart_fields env_heads Let_def
        console_error_def)
  have g: "isRunning (startListening env_head10 env_head10 ?f)"
    "lastProcessedBlock (startListening env_head10 env_head10 ?f) = 0"
    using f by (simp_all add: startListening_def Let_def console_log_def)
  have c: "lastProcessedBlock (run [Tick env_two_transfers] started_at_10) = 12 \<and>
      lastProcessedBlock (run [Tick env_two_transfers, Restart] started_at_10) = 0 \<and>
      isRunning
        (run [Tick env_two_transfers, Restart, Start env_down env_down,
              Start env_head10 env_head10] started_at_10) \<and>
      lastProcessedBlock
        (run [Tick env_two_transfers, Restart, Start env_down env_down,
              Start env_head10 env_head10] started_at_10) = 0"
    using u g by (simp add: started_at_10_fields restart_fields)
  from a b c show ?thesis by blast
qed

text \<open>
  C1 (amended): an iteration whose head query answers a head beyond the cursor sets the cursor
  to the window's upper bound, the smaller of cursor + 100 and the head, once \<open>queryEvents\<close>
  has returned, whatever happened to the recording of the window's events; an iteration whose
  head query fails or answers a head not beyond the cursor leaves the cursor where it was.
  Along every sequence of starts, stops and iterations of one process in which no iteration
  begins while another is in flight, the cursor never decreases. The cursor is not kept
  across a restart of the process: the new service has cursor 0 and the store as it was, and
  a start whose initialization succeeds sets the cursor to the head then reported.
\<close>

theorem cursor_advances_and_never_decreases:
  "(\<forall>head. getBlockNumber env = Inr head \<and> lastProcessedBlock s < head \<longrightarrow>
      lastProcessedBlock (pollEvents env s) = min (lastProcessedBlock s + 100) head) \<and>
   lastProcessedBlock (pollEvents_finish env w s) = snd w \<and>
   (\<forall>head. getBlockNumber env = Inr head \<and> head \<le> lastProcessedBlock s \<longrightarrow>
      lastProcessedBlock (pollEvents env s) = lastProcessedBlock s) \<and>
   (\<forall>e. getBlockNumber env = Inl e \<longrightarrow>
      lastProcessedBlock (pollEvents env s) = lastProcessedBlock s) \<and>
   (sequential (steps @ later) EventSyncService \<longrightarrow>
      lastProcessedBlock (run steps EventSyncService)
        \<le> lastProcessedBlock (run (steps @ later) EventSyncService)) \<and>
   lastProcessedBlock (restart s) = 0 \<and> transactions (restart s) = transactions s \<and>
   users (restart s) = users s \<and>
   (\<forall>n. getContract env = None \<and> getBlockNumber env = Inr n \<longrightarrow>
      lastProcessedBlock (startListening env env1 (restart s)) = n)"
proof -
  have m: "lastProcessedBlock (run steps EventSyncService)
        \<le> lastProcessedBlock (run (steps @ later) EventSyncService)"
    if "sequential (steps @ later) EventSyncService"
  proof -
    from that have x: "sequential steps EventSyncService"
      and y: "sequential later (run steps EventSyncService)"
      by (simp_all add: sequential_append)
    from run_sequential [OF cursor_inv_fresh x]
    have "cursor_inv (run steps EventSyncService)" by simp
    from run_sequential [OF this y] show ?thesis by (simp add: run_append)
  qed
  show ?thesis
    using m startListening_after_restart [of env _ env1 s]
    by (simp add: pollEvents_unfold pollEvents_noop pollEvents_head_error BLOCKS_PER_QUERY_def
        restart_fields)
qed

theorem cursor_advances_and_never_decreases_witness:
  "getBlockNumber env_block_lookup_down = Inr 12 \<and> lastProcessedBlock started_at_10 < 12 \<and>
   lastProcessedBlock (pollEvents env_block_lookup_down started_at_10) = 12 \<and>
   sequential
     ([Start env_head10 env_head10] @ [Tick env_block_lookup_down, Launch env_head15, Stop,
        Finish 0 env_head15]) EventSyncService \<and>
   lastProcessedBlock (run [Start env_head10 env_head10] EventSyncService)
     \<le> lastProcessedBlock
         (run ([Start env_head10 env_head10] @ [Tick env_block_lookup_down, Launch env_head15,
            Stop, Finish 0 env_head15]) EventSyncService) \<and>
   getContract env_head10 = None \<and> getBlockNumber env_head10 = Inr 10 \<and>
   lastProcessedBlock (startListening env_head10 env_head15 (restart started_at_10)) = 10"
proof -
  let ?later = "[Tick env_block_lookup_down, Launch env_head15, Stop, Finish 0 env_head15]"
  have p: "pending (pollEvents_begin env_head10 s) = pending s"
    if "lastProcessedBlock s = 10" for s
    using that by (simp add: pollEvents_begin_def env_heads)
  have e: "pending EventSyncService = []"
    by (simp add: EventSyncService_def)
  have s: "sequential ([Start env_head10 env_head10] @ ?later) EventSyncService"
    using started_at_10_fields e
    by (simp add: started_at_10_def [symmetric] stopListening_def Let_def console_log_def)
  from cursor_advances_and_never_decreases
    [of env_block_lookup_down started_at_10 "(11, 12)" "[Start env_head10 env_head10]" ?later
      env_head15]
    cursor_advances_and_never_decreases
    [of env_head10 started_at_10 "(11, 12)" "[]" "[]" env_head15]
    s
  show ?thesis
    by (simp add: started_at_10_fields env_heads del: run.simps sequential.simps apply_step.simps)
qed

subsection \<open>The window\<close>

lemma remote_cong:
  assumes "getBlock env' = getBlock env" "clock env' = clock env"
    "findOne_error env' = findOne_error env" "create_error env' = create_error env"
    "findOneAndUpdate_error env' = findOneAndUpdate_error env"
  shows "blockDate env' = blockDate env"
    and "Transaction_findOne env' = Transaction_findOne env"
    and "Transaction_create env' = Transaction_create env"
    and "User_findOneAndUpdate env' = User_findOneAndUpdate env"
  unfolding fun_eq_iff blockDate_def Transaction_findOne_def Transaction_create_def
    User_findOneAndUpdate_def assms
  by simp_all

lemma process_env_cong:
  assumes "getBlock env' = getBlock env" "clock env' = clock env"
    "findOne_error env' = findOne_error env" "create_error env' = create_error env"
    "findOneAndUpdate_error env' = findOneAndUpdate_error env"
  shows "processTransferEvent env' = processTransferEvent env"
    and "processMintEvent env' = processMintEvent env"
    and "processBurnEvent env' = processBurnEvent env"
    and "processWhitelistEvent env' = processWhitelistEvent env"
    and "processPauseEvent env' = processPauseEvent env"
  unfolding fun_eq_iff process_defs assms(1) remote_cong [OF assms]
  by simp_all

lemma queryEvents_env_cong:
  assumes "getBlock env' = getBlock env" "clock env' = clock env"
    "findOne_error env' = findOne_error env" "create_error env' = create_error env"
    "findOneAndUpdate_error env' = findOneAndUpdate_error env"
    and "\<And>k. queryFilter env' k a b = queryFilter env k a b"
  shows "queryEvents env' a b s = queryEvents env a b s"
  unfolding queryEvents_def process_env_cong [OF assms(1-5)] assms(6)
  by (rule refl)

lemma queryEvents_all_answered:
  assumes "queryFilter env ''Transfer'' a b = Inr ev1"
    "queryFilter env ''TokensMinted'' a b = Inr ev2"
    "queryFilter env ''TokensBurned'' a b = Inr ev3"
    "queryFilter env ''WhitelistUpdated'' a b = Inr ev4"
    "queryFilter env ''Paused'' a b = Inr ev5"
    "queryFilter env ''Unpaused'' a b = Inr ev6"
  shows "queryEvents env a b s =
     fold (\<lambda>event. processPauseEvent env event False) ev6
       (fold (\<lambda>event. processPauseEvent env event True) ev5
          (fold (processWhitelistEvent env) ev4
             (fold (processBurnEvent env) ev3
                (fold (processMintEvent env) ev2
                   (fold (processTransferEvent env) ev1 s)))))"
  using assms by (simp add: queryEvents_def)

text \<open>The history only grows: every handler leaves it as it was or appends to it.\<close>

lemma create_prefix:
  "Transaction_create env doc db = Inr db' \<Longrightarrow> prefix db db'"
  by (auto simp: Transaction_create_def Let_def split: if_splits option.splits)

lemma handler_prefix:
  "prefix (transactions s) (transactions (processTransferEvent env ev s))"
  "prefix (transactions s) (transactions (processMintEvent env ev s))"
  "prefix (transactions s) (transactions (processBurnEvent env ev s))"
  "prefix (transactions s) (transactions (processWhitelistEvent env ev s))"
  "prefix (transactions s) (transactions (processPauseEvent env ev p s))"
  by (auto simp: process_defs Let_def console_log_def console_error_def
      split: option.splits sum.splits event_args.splits dest: create_prefix)

lemma fold_prefix:
  assumes "\<And>x s. prefix (transactions s) (transactions (f x s))"
  shows "prefix (transactions s) (transactions (fold f xs s))"
proof (induction xs arbitrary: s)
  case Nil
  show ?case by simp
next
  case (Cons x xs)
  from assms [of s x] Cons [of "f x s"] show ?case
    by (simp add: prefix_order.trans)
qed

lemma find_hash:
  "find (\<lambda>t. txHash t = h \<and> Q t) db = Some t \<Longrightarrow> h \<in> set (map txHash db)"
  by (induction db) (auto split: if_splits)

lemma enum_members:
  "''Transfer'' \<in> set eventType_enum" "''Mint'' \<in> set eventType_enum"
  "''Burn'' \<in> set eventType_enum" "''WhitelistUpdated'' \<in> set eventType_enum"
  "''Paused'' \<in> set eventType_enum" "''Unpaused'' \<in> set eventType_enum"
  by (simp_all add: eventType_enum_def)

lemma findOne_reachable:
  "findOne_error env = (\<lambda>h k. None) \<Longrightarrow> Transaction_findOne env h k db \<noteq> Inl e"
  by (simp add: Transaction_findOne_def)

lemma findOne_SomeD:
  "Transaction_findOne env h k db = Inr (Some t) \<Longrightarrow> h \<in> set (map txHash db)"
  by (cases "findOne_error env h k") (auto simp: Transaction_findOne_def dest: find_hash)

lemma create_InlD:
  "Transaction_create env doc db = Inl e \<Longrightarrow> create_error env = (\<lambda>h k. None) \<Longrightarrow>
     txHash doc \<noteq> [] \<Longrightarrow> eventType doc \<in> set eventType_enum \<Longrightarrow>
     txHash doc \<in> set (map txHash db)"
  by (auto simp: Transaction_create_def Let_def split: if_splits)

lemma create_InrD:
  "Transaction_create env doc db = Inr db' \<Longrightarrow> txHash doc \<in> set (map txHash db')"
  by (auto simp: Transaction_create_def Let_def split: if_splits option.splits)

text \<open>
  With the store reachable and the block lookup answering, a handler leaves a record under
  the hash of its event: the one it found, the one it created, or the one whose hash the
  unique index found already stored.
\<close>

lemma processTransferEvent_records:
  assumes "transactionHash ev \<noteq> []" "findOne_error env = (\<lambda>h k. None)"
    "create_error env = (\<lambda>h k. None)" "getBlock env (log_blockNumber ev) = Inr blk"
    "args ev = TransferArgs f t v"
  shows "transactionHash ev \<in> set (map txHash (transactions (processTransferEvent env ev s)))"
proof (cases "Transaction_findOne env (transactionHash ev) (Some ''Transfer'') (transactions s)")
  case (Inl e)
  with findOne_reachable [OF assms(2)] show ?thesis by blast
next
  case (Inr r)
  show ?thesis
  proof (cases r)
    case (Some t)
    with Inr findOne_SomeD [of env _ _ "transactions s" t] show ?thesis
      by (simp add: processTransferEvent_def)
  next
    case None
    let ?doc = "(new_transaction (transactionHash ev) (log_blockNumber ev) (blockDate env blk)
        ''Transfer'' (args ev))
      \<lparr>from_address := Some (toLowerCase f), to_address := Some (toLowerCase t),
       amount := Some (decimal v)\<rparr>"
    have d: "txHash ?doc = transactionHash ev" "eventType ?doc = ''Transfer''"
      by (simp_all add: new_transaction_def)
    show ?thesis
    proof (cases "Transaction_create env ?doc (transactions s)")
      case (Inl e)
      from create_InlD [OF Inl assms(3)] assms(1) d have
        "transactionHash ev \<in> set (map txHash (transactions s))"
        by (simp add: enum_members)
      with Inl Inr None assms show ?thesis
        by (simp add: processTransferEvent_def console_error_def)
    next
      case r: (Inr db)
      from create_InrD [OF r] d r Inr None assms show ?thesis
        by (simp add: processTransferEvent_def console_log_def)
    qed
  qed
qed

lemma processMintEvent_records:
  assumes "transactionHash ev \<noteq> []" "findOne_error env = (\<lambda>h k. None)"
    "create_error env = (\<lambda>h k. None)" "getBlock env (log_blockNumber ev) = Inr blk"
    "args ev = TokensMintedArgs t v why"
  shows "transactionHash ev \<in> set (map txHash (transactions (processMintEvent env ev s)))"
proof (cases "Transaction_findOne env (transactionHash ev) (Some ''Mint'') (transactions s)")
  case (Inl e)
  with findOne_reachable [OF assms(2)] show ?thesis by blast
next
  case (Inr r)
  show ?thesis
  proof (cases r)
    case (Some t)
    with Inr findOne_SomeD [of env _ _ "transactions s" t] show ?thesis
      by (simp add: processMintEvent_def)
  next
    case None
    let ?doc = "(new_transaction (transactionHash ev) (log_blockNumber ev) (blockDate env blk)
        ''Mint'' (args ev))
      \<lparr>to_address := Some (toLowerCase t), amount := Some (decimal v), reason := Some why\<rparr>"
    have d: "txHash ?doc = transactionHash ev" "eventType ?doc = ''Mint''"
      by (simp_all add: new_transaction_def)
    show ?thesis
    proof (cases "Transaction_create env ?doc (transactions s)")
      case (Inl e)
      from create_InlD [OF Inl assms(3)] assms(1) d have
        "transactionHash ev \<in> set (map txHash (transactions s))"
        by (simp add: enum_members)
      with Inl Inr None assms show ?thesis
        by (simp add: processMintEvent_def console_error_def)
    next
      case r: (Inr db)
      from create_InrD [OF r] d r Inr None assms show ?thesis
        by (simp add: processMintEvent_def console_log_def)
    qed
  qed
qed

lemma processBurnEvent_records:
  assumes "transactionHash ev \<noteq> []" "findOne_error env = (\<lambda>h k. None)"
    "create_error env = (\<lambda>h k. None)" "getBlock env (log_blockNumber ev) = Inr blk"
    "args ev = TokensBurnedArgs f v why"
  shows "transactionHash ev \<in> set (map txHash (transactions (processBurnEvent env ev s)))"
proof (cases "Transaction_findOne env (transactionHash ev) (Some ''Burn'') (transactions s)")
  case (Inl e)
  with findOne_reachable [OF assms(2)] show ?thesis by blast
next
  case (Inr r)
  show ?thesis
  proof (cases r)
    case (Some t)
    with Inr findOne_SomeD [of env _ _ "transactions s" t] show ?thesis
      by (simp add: processBurnEvent_def)
  next
    case None
    let ?doc = "(new_transaction (transactionHash ev) (log_blockNumber ev) (blockDate env blk)
        ''Burn'' (args ev))
      \<lparr>from_address := Some (toLowerCase f), amount := Some (decimal v), reason := Some why\<rparr>"
    have d: "txHash ?doc = transactionHash ev" "eventType ?doc = ''Burn''"
      by (simp_all add: new_transaction_def)
    show ?thesis
    proof (cases "Transaction_create env ?doc (transactions s)")
      case (Inl e)
      from create_InlD [OF Inl assms(3)] assms(1) d have
        "transactionHash ev \<in> set (map txHash (transactions s))"
        by (simp add: enum_members)
      with Inl Inr None assms show ?thesis
        by (simp add: processBurnEvent_def console_error_def)
    next
      case r: (Inr db)
      from create_InrD [OF r] d r Inr None assms show ?thesis
        by (simp add: processBurnEvent_def console_log_def)
    qed
  qed
qed

lemma processWhitelistEvent_records:
  assumes "transactionHash ev \<noteq> []" "findOne_error env = (\<lambda>h k. None)"
    "create_error env = (\<lambda>h k. None)" "getBlock env (log_blockNumber ev) = Inr blk"
    "args ev = WhitelistUpdatedArgs a st"
  shows "transactionHash ev \<in> set (map txHash (transactions (processWhitelistEvent env ev s)))"
proof (cases "Transaction_findOne env (transactionHash ev) (Some ''WhitelistUpdated'')
    (transactions s)")
  case (Inl e)
  with findOne_reachable [OF assms(2)] show ?thesis by blast
next
  case (Inr r)
  show ?thesis
  proof (cases r)
    case (Some t)
    with Inr findOne_SomeD [of env _ _ "transactions s" t] show ?thesis
      by (simp add: processWhitelistEvent_def)
  next
    case None
    let ?doc = "(new_transaction (transactionHash ev) (log_blockNumber ev) (blockDate env blk)
        ''WhitelistUpdated'' (args ev))
      \<lparr>account := Some (toLowerCase a), whitelistStatus := Some st\<rparr>"
    have d: "txHash ?doc = transactionHash ev" "eventType ?doc = ''WhitelistUpdated''"
      by (simp_all add: new_transaction_def)
    show ?thesis
    proof (cases "Transaction_create env ?doc (transactions s)")
      case (Inl e)
      from create_InlD [OF Inl assms(3)] assms(1) d have
        "transactionHash ev \<in> set (map txHash (transactions s))"
        by (simp add: enum_members)
      with Inl Inr None assms show ?thesis
        by (simp add: processWhitelistEvent_def console_error_def)
    next
      case r: (Inr db)
      from create_InrD [OF r] d r Inr None assms show ?thesis
        by (simp add: processWhitelistEvent_def console_log_def console_error_def
            split: sum.splits)
    qed
  qed
qed

lemma processPauseEvent_records:
  assumes "transactionHash ev \<noteq> []" "findOne_error env = (\<lambda>h k. None)"
    "create_error env = (\<lambda>h k. None)" "getBlock env (log_blockNumber ev) = Inr blk"
    "args ev = PausedArgs a"
  shows "transactionHash ev \<in> set (map txHash (transactions (processPauseEvent env ev p s)))"
proof -
  let ?k = "if p then ''Paused'' else ''Unpaused''"
  have k: "?k \<in> set eventType_enum" by (simp add: enum_members)
  show ?thesis
  proof (cases "Transaction_findOne env (transactionHash ev) (Some ?k) (transactions s)")
    case (Inl e)
    with findOne_reachable [OF assms(2)] show ?thesis by blast
  next
    case (Inr r)
    show ?thesis
    proof (cases r)
      case (Some t)
      with Inr findOne_SomeD [of env _ _ "transactions s" t] show ?thesis
        by (simp add: processPauseEvent_def Let_def)
    next
      case None
      let ?doc = "(new_transaction (transactionHash ev) (log_blockNumber ev)
          (blockDate env blk) ?k (args ev))
        \<lparr>account := Some (toLowerCase a)\<rparr>"
      have d: "txHash ?doc = transactionHash ev" "eventType ?doc = ?k"
        by (simp_all add: new_transaction_def)
      show ?thesis
      proof (cases "Transaction_create env ?doc (transactions s)")
        case (Inl e)
        from create_InlD [OF Inl assms(3)] assms(1) d k have
          "transactionHash ev \<in> set (map txHash (transactions s))"
          by simp
        with Inl Inr None assms show ?thesis
          by (simp add: processPauseEvent_def Let_def console_error_def)
      next
        case r: (Inr db)
        from create_InrD [OF r] d r Inr None assms show ?thesis
          by (simp add: processPauseEvent_def Let_def console_log_def)
      qed
    qed
  qed
qed

lemma hash_kept:
  "prefix (transactions s) (transactions s') \<Longrightarrow> h \<in> set (map txHash (transactions s)) \<Longrightarrow>
     h \<in> set (map txHash (transactions s'))"
  by (auto simp: prefix_def)

lemma fold_records:
  assumes rec: "\<And>s. h \<in> set (map txHash (transactions (f ev s)))"
    and pre: "\<And>x s. prefix (transactions s) (transactions (f x s))"
    and mem: "ev \<in> set evs"
  shows "h \<in> set (map txHash (transactions (fold f evs s)))"
  using mem
proof (induction evs arbitrary: s)
  case Nil
  then show ?case by simp
next
  case (Cons x evs)
  show ?case
  proof (cases "x = ev")
    case True
    have "prefix (transactions (f ev s)) (transactions (fold f evs (f ev s)))"
      by (rule fold_prefix) (rule pre)
    from hash_kept [OF this rec [of s]] True show ?thesis by simp
  next
    case False
    with Cons show ?thesis by simp
  qed
qed

lemma window_events_recorded:
  assumes h: "transactionHash ev \<noteq> []"
    and st: "findOne_error env = (\<lambda>h k. None)" "create_error env = (\<lambda>h k. None)"
    and blk: "getBlock env (log_blockNumber ev) = Inr blk"
    and mem: "ev \<in> set ev1 \<and> (\<exists>f t v. args ev = TransferArgs f t v) \<or>
      ev \<in> set ev2 \<and> (\<exists>t v w. args ev = TokensMintedArgs t v w) \<or>
      ev \<in> set ev3 \<and> (\<exists>f v w. args ev = TokensBurnedArgs f v w) \<or>
      ev \<in> set ev4 \<and> (\<exists>a b. args ev = WhitelistUpdatedArgs a b) \<or>
      ev \<in> set ev5 \<and> (\<exists>a. args ev = PausedArgs a) \<or>
      ev \<in> set ev6 \<and> (\<exists>a. args ev = PausedArgs a)"
  shows "transactionHash ev \<in> set (map txHash (transactions
     (fold (\<lambda>event. processPauseEvent env event False) ev6
       (fold (\<lambda>event. processPauseEvent env event True) ev5
          (fold (processWhitelistEvent env) ev4
             (fold (processBurnEvent env) ev3
                (fold (processMintEvent env) ev2
                   (fold (processTransferEvent env) ev1 s))))))))"
proof -
  let ?t1 = "fold (processTransferEvent env) ev1 s"
  let ?t2 = "fold (processMintEvent env) ev2 ?t1"
  let ?t3 = "fold (processBurnEvent env) ev3 ?t2"
  let ?t4 = "fold (processWhitelistEvent env) ev4 ?t3"
  let ?t5 = "fold (\<lambda>event. processPauseEvent env event True) ev5 ?t4"
  let ?t6 = "fold (\<lambda>event. processPauseEvent env event False) ev6 ?t5"
  let ?H = "\<lambda>t. set (map txHash (transactions t))"
  have p2: "prefix (transactions ?t1) (transactions ?t2)"
    by (rule fold_prefix) (rule handler_prefix)
  have p3: "prefix (transactions ?t2) (transactions ?t3)"
    by (rule fold_prefix) (rule handler_prefix)
  have p4: "prefix (transactions ?t3) (transactions ?t4)"
    by (rule fold_prefix) (rule handler_prefix)
  have p5: "prefix (transactions ?t4) (transactions ?t5)"
    by (rule fold_prefix) (rule handler_prefix)
  have p6: "prefix (transactions ?t5) (transactions ?t6)"
    by (rule fold_prefix) (rule handler_prefix)
  have k5: "transactionHash ev \<in> ?H ?t6" if "transactionHash ev \<in> ?H ?t5"
    using hash_kept [OF p6 that] .
  have k4: "transactionHash ev \<in> ?H ?t6" if "transactionHash ev \<in> ?H ?t4"
    using hash_kept [OF p5 that] by (rule k5)
  have k3: "transactionHash ev \<in> ?H ?t6" if "transactionHash ev \<in> ?H ?t3"
    using hash_kept [OF p4 that] by (rule k4)
  have k2: "transactionHash ev \<in> ?H ?t6" if "transactionHash ev \<in> ?H ?t2"
    using hash_kept [OF p3 that] by (rule k3)
  have k1: "transactionHash ev \<in> ?H ?t6" if "transactionHash ev \<in> ?H ?t1"
    using hash_kept [OF p2 that] by (rule k2)
  from mem consider
      (transfer) f t v where "ev \<in> set ev1" "args ev = TransferArgs f t v"
    | (mint) t v w where "ev \<in> set ev2" "args ev = TokensMintedArgs t v w"
    | (burn) f v w where "ev \<in> set ev3" "args ev = TokensBurnedArgs f v w"
    | (whitelist) a b where "ev \<in> set ev4" "args ev = WhitelistUpdatedArgs a b"
    | (paused) a where "ev \<in> set ev5" "args ev = PausedArgs a"
    | (unpaused) a where "ev \<in> set ev6" "args ev = PausedArgs a"
    by blast
  then show ?thesis
  proof cases
    case transfer
    have "transactionHash ev \<in> ?H ?t1"
      by (rule fold_records [OF _ _ transfer(1)])
        (rule processTransferEvent_records [OF h st blk transfer(2)], rule handler_prefix)
    then show ?thesis by (rule k1)
  next
    case mint
    have "transactionHash ev \<in> ?H ?t2"
      by (rule fold_records [OF _ _ mint(1)])
        (rule processMintEvent_records [OF h st blk mint(2)], rule handler_prefix)
    then show ?thesis by (rule k2)
  next
    case burn
    have "transactionHash ev \<in> ?H ?t3"
      by (rule fold_records [OF _ _ burn(1)])
        (rule processBurnEvent_records [OF h st blk burn(2)], rule handler_prefix)
    then show ?thesis by (rule k3)
  next
    case whitelist
    have "transactionHash ev \<in> ?H ?t4"
      by (rule fold_records [OF _ _ whitelist(1)])
        (rule processWhitelistEvent_records [OF h st blk whitelist(2)], rule handler_prefix)
    then show ?thesis by (rule k4)
  next
    case paused
    have "transactionHash ev \<in> ?H ?t5"
      by (rule fold_records [OF _ _ paused(1)])
        (rule processPauseEvent_records [OF h st blk paused(2)], rule handler_prefix)
    then show ?thesis by (rule k5)
  next
    case unpaused
    show ?thesis
      by (rule fold_records [OF _ _ unpaused(1)])
        (rule processPauseEvent_records [OF h st blk unpaused(2)], rule handler_prefix)
  qed
qed

text \<open>
  C8: an iteration whose head query answers \<open>head\<close> changes nothing when \<open>head\<close> is not beyond
  the cursor; otherwise it is \<open>queryEvents\<close> over the blocks from cursor + 1 to the smaller
  of cursor + \<open>BLOCKS_PER_QUERY\<close> and \<open>head\<close>, followed by the cursor's assignment, with
  \<open>BLOCKS_PER_QUERY\<close> = 100. It reads the event queries at this range and at no other: two
  remotes that agree on the head, the blocks, the clock and the store, and on the six queries
  over this range, give the same iteration. And it fetches the events of the window: when
  the six queries over the range answer, the iteration is their handlers run over every
  event received, kind after kind in the order received; and with the store reachable, each
  of these events that has a hash, the arguments of its kind and a block that the lookup
  finds, has a record under its hash in the history when the iteration ends.
\<close>

theorem pollEvents_window:
  assumes "getBlockNumber env = Inr head"
  shows "BLOCKS_PER_QUERY = 100 \<and>
     (head \<le> lastProcessedBlock s \<longrightarrow> pollEvents env s = s) \<and>
     (lastProcessedBlock s < head \<longrightarrow>
        pollEvents env s =
          (queryEvents env (lastProcessedBlock s + 1)
             (min (lastProcessedBlock s + BLOCKS_PER_QUERY) head) s)
            \<lparr>lastProcessedBlock := min (lastProcessedBlock s + BLOCKS_PER_QUERY) head\<rparr> \<and>
        (\<forall>env'. getBlockNumber env' = Inr head \<and> getBlock env' = getBlock env \<and>
            clock env' = clock env \<and> findOne_error env' = findOne_error env \<and>
            create_error env' = create_error env \<and>
            findOneAndUpdate_error env' = findOneAndUpdate_error env \<and>
            (\<forall>k. queryFilter env' k (lastProcessedBlock s + 1)
                    (min (lastProcessedBlock s + BLOCKS_PER_QUERY) head)
                  = queryFilter env k (lastProcessedBlock s + 1)
                      (min (lastProcessedBlock s + BLOCKS_PER_QUERY) head))
           \<longrightarrow> pollEvents env' s = pollEvents env s) \<and>
        (\<forall>ev1 ev2 ev3 ev4 ev5 ev6.
            queryFilter env ''Transfer'' (lastProcessedBlock s + 1)
              (min (lastProcessedBlock s + BLOCKS_PER_QUERY) head) = Inr ev1 \<and>
            queryFilter env ''TokensMinted'' (lastProcessedBlock s + 1)
              (min (lastProcessedBlock s + BLOCKS_PER_QUERY) head) = Inr ev2 \<and>
            queryFilter env ''TokensBurned'' (lastProcessedBlock s + 1)
              (min (lastProcessedBlock s + BLOCKS_PER_QUERY) head) = Inr ev3 \<and>
            queryFilter env ''WhitelistUpdated'' (lastProcessedBlock s + 1)
              (min (lastProcessedBlock s + BLOCKS_PER_QUERY) head) = Inr ev4 \<and>
            queryFilter env ''Paused'' (lastProcessedBlock s + 1)
              (min (lastProcessedBlock s + BLOCKS_PER_QUERY) head) = Inr ev5 \<and>
            queryFilter env ''Unpaused'' (lastProcessedBlock s + 1)
              (min (lastProcessedBlock s + BLOCKS_PER_QUERY) head) = Inr ev6
           \<longrightarrow>
            pollEvents env s =
              (fold (\<lambda>event. processPauseEvent env event False) ev6
                 (fold (\<lambda>event. processPauseEvent env event True) ev5
                    (fold (processWhitelistEvent env) ev4
                       (fold (processBurnEvent env) ev3
                          (fold (processMintEvent env) ev2
                             (fold (processTransferEvent env) ev1 s))))))
                \<lparr>lastProcessedBlock := min (lastProcessedBlock s + BLOCKS_PER_QUERY) head\<rparr> \<and>
            (\<forall>ev blk.
                transactionHash ev \<noteq> [] \<and> findOne_error env = (\<lambda>h k. None) \<and>
                create_error env = (\<lambda>h k. None) \<and>
                getBlock env (log_blockNumber ev) = Inr blk \<and>
                (ev \<in> set ev1 \<and> (\<exists>f t v. args ev = TransferArgs f t v) \<or>
                 ev \<in> set ev2 \<and> (\<exists>t v w. args ev = TokensMintedArgs t v w) \<or>
                 ev \<in> set ev3 \<and> (\<exists>f v w. args ev = TokensBurnedArgs f v w) \<or>
                 ev \<in> set ev4 \<and> (\<exists>a b. args ev = WhitelistUpdatedArgs a b) \<or>
                 ev \<in> set ev5 \<and> (\<exists>a. args ev = PausedArgs a) \<or>
                 ev \<in> set ev6 \<and> (\<exists>a. args ev = PausedArgs a))
               \<longrightarrow> transactionHash ev
                     \<in> set (map txHash (transactions (pollEvents env s))))))"
proof -
  let ?lo = "lastProcessedBlock s + 1"
  let ?hi = "min (lastProcessedBlock s + BLOCKS_PER_QUERY) head"
  have w: "BLOCKS_PER_QUERY = 100" by (simp add: BLOCKS_PER_QUERY_def)
  have noop: "pollEvents env s = s" if "head \<le> lastProcessedBlock s"
    using assms that by (rule pollEvents_noop)
  have eq: "pollEvents env s = (queryEvents env ?lo ?hi s)\<lparr>lastProcessedBlock := ?hi\<rparr>"
    if "lastProcessedBlock s < head"
    using assms that by (rule pollEvents_unfold)
  have same: "pollEvents env' s = pollEvents env s"
    if lt: "lastProcessedBlock s < head"
      and a: "getBlockNumber env' = Inr head \<and> getBlock env' = getBlock env \<and>
            clock env' = clock env \<and> findOne_error env' = findOne_error env \<and>
            create_error env' = create_error env \<and>
            findOneAndUpdate_error env' = findOneAndUpdate_error env \<and>
            (\<forall>k. queryFilter env' k ?lo ?hi = queryFilter env k ?lo ?hi)"
    for env' :: remote
  proof -
    from a have q: "queryEvents env' ?lo ?hi s = queryEvents env ?lo ?hi s"
      by (intro queryEvents_env_cong) simp_all
    from a have h': "getBlockNumber env' = Inr head" by simp
    show ?thesis
      unfolding pollEvents_unfold [OF h' lt] pollEvents_unfold [OF assms lt] q by (rule refl)
  qed
  have folds: "pollEvents env s =
      (fold (\<lambda>event. processPauseEvent env event False) ev6
         (fold (\<lambda>event. processPauseEvent env event True) ev5
            (fold (processWhitelistEvent env) ev4
               (fold (processBurnEvent env) ev3
                  (fold (processMintEvent env) ev2
                     (fold (processTransferEvent env) ev1 s))))))
        \<lparr>lastProcessedBlock := ?hi\<rparr>"
    if "lastProcessedBlock s < head"
      and "queryFilter env ''Transfer'' ?lo ?hi = Inr ev1 \<and>
        queryFilter env ''TokensMinted'' ?lo ?hi = Inr ev2 \<and>
        queryFilter env ''TokensBurned'' ?lo ?hi = Inr ev3 \<and>
        queryFilter env ''WhitelistUpdated'' ?lo ?hi = Inr ev4 \<and>
        queryFilter env ''Paused'' ?lo ?hi = Inr ev5 \<and>
        queryFilter env ''Unpaused'' ?lo ?hi = Inr ev6"
    for ev1 ev2 ev3 ev4 ev5 ev6
    using that eq queryEvents_all_answered [of env ?lo ?hi ev1 ev2 ev3 ev4 ev5 ev6 s]
    by simp
  have recorded: "transactionHash ev \<in> set (map txHash (transactions (pollEvents env s)))"
    if "lastProcessedBlock s < head"
      and "queryFilter env ''Transfer'' ?lo ?hi = Inr ev1 \<and>
        queryFilter env ''TokensMinted'' ?lo ?hi = Inr ev2 \<and>
        queryFilter env ''TokensBurned'' ?lo ?hi = Inr ev3 \<and>
        queryFilter env ''WhitelistUpdated'' ?lo ?hi = Inr ev4 \<and>
        queryFilter env ''Paused'' ?lo ?hi = Inr ev5 \<and>
        queryFilter env ''Unpaused'' ?lo ?hi = Inr ev6"
      and "transactionHash ev \<noteq> [] \<and> findOne_error env = (\<lambda>h k. None) \<and>
        create_error env = (\<lambda>h k. None) \<and>
        getBlock env (log_blockNumber ev) = Inr blk \<and>
        (ev \<in> set ev1 \<and> (\<exists>f t v. args ev = TransferArgs f t v) \<or>
         ev \<in> set ev2 \<and> (\<exists>t v w. args ev = TokensMintedArgs t v w) \<or>
         ev \<in> set ev3 \<and> (\<exists>f v w. args ev = TokensBurnedArgs f v w) \<or>
         ev \<in> set ev4 \<and> (\<exists>a b. args ev = WhitelistUpdatedArgs a b) \<or>
         ev \<in> set ev5 \<and> (\<exists>a. args ev = PausedArgs a) \<or>
         ev \<in> set ev6 \<and> (\<exists>a. args ev = PausedArgs a))"
    for ev1 ev2 ev3 ev4 ev5 ev6 ev blk
  proof -
    from that(3) have
      "transactionHash ev \<in> set (map txHash (transactions
         (fold (\<lambda>event. processPauseEvent env event False) ev6
           (fold (\<lambda>event. processPauseEvent env event True) ev5
              (fold (processWhitelistEvent env) ev4
                 (fold (processBurnEvent env) ev3
                    (fold (processMintEvent env) ev2
                       (fold (processTransferEvent env) ev1 s))))))))"
      by (intro window_events_recorded [where blk = blk]) simp_all
    then show ?thesis
      unfolding folds [OF that(1,2)] by simp
  qed
  show ?thesis
    using w noop eq same folds recorded by (intro conjI impI allI) blast+
qed

theorem pollEvents_window_witness:
  "getBlockNumber env_head10 = Inr 10 \<and> 10 \<le> lastProcessedBlock started_at_10 \<and>
   pollEvents env_head10 started_at_10 = started_at_10 \<and>
   getBlockNumber env_two_transfers = Inr 12 \<and> lastProcessedBlock started_at_10 < 12 \<and>
   pollEvents env_two_transfers started_at_10 =
     (queryEvents env_two_transfers 11 12 started_at_10)\<lparr>lastProcessedBlock := 12\<rparr> \<and>
   queryFilter env_window_only ''Transfer'' 1 10 \<noteq> queryFilter env_two_transfers ''Transfer'' 1 10 \<and>
   pollEvents env_window_only started_at_10 = pollEvents env_two_transfers started_at_10 \<and>
   queryFilter env_two_transfers ''Transfer'' 11 12 = Inr [transfer_400, transfer_7] \<and>
   pollEvents env_two_transfers started_at_10 =
     (fold (processTransferEvent env_two_transfers) [transfer_400, transfer_7] started_at_10)
       \<lparr>lastProcessedBlock := 12\<rparr> \<and>
   transactionHash transfer_7 = tx3 \<and>
   tx3 \<in> set (map txHash (transactions (pollEvents env_two_transfers started_at_10)))"
proof -
  let ?lo = "lastProcessedBlock started_at_10 + 1"
  let ?hi = "min (lastProcessedBlock started_at_10 + BLOCKS_PER_QUERY) 12"
  have h10: "getBlockNumber env_head10 = Inr 10" by (simp add: env_head10_def)
  have h12: "getBlockNumber env_two_transfers = Inr 12" by (simp add: env_two_transfers_def)
  have le: "10 \<le> lastProcessedBlock started_at_10" and lt: "lastProcessedBlock started_at_10 < 12"
    by (simp_all add: started_at_10_fields)
  have lo: "?lo = 11" and hi: "?hi = 12"
    by (simp_all add: started_at_10_fields BLOCKS_PER_QUERY_def)
  have w: "getBlockNumber env_window_only = Inr 12 \<and>
      getBlock env_window_only = getBlock env_two_transfers \<and>
      clock env_window_only = clock env_two_transfers \<and>
      findOne_error env_window_only = findOne_error env_two_transfers \<and>
      create_error env_window_only = create_error env_two_transfers \<and>
      findOneAndUpdate_error env_window_only = findOneAndUpdate_error env_two_transfers \<and>
      (\<forall>k. queryFilter env_window_only k ?lo ?hi = queryFilter env_two_transfers k ?lo ?hi)"
    unfolding lo hi by (simp add: env_window_only_def h12)
  have d: "queryFilter env_window_only ''Transfer'' 1 10
      \<noteq> queryFilter env_two_transfers ''Transfer'' 1 10"
    by (simp add: env_window_only_def env_two_transfers_def)
  have q: "queryFilter env_two_transfers ''Transfer'' ?lo ?hi = Inr [transfer_400, transfer_7] \<and>
      queryFilter env_two_transfers ''TokensMinted'' ?lo ?hi = Inr [] \<and>
      queryFilter env_two_transfers ''TokensBurned'' ?lo ?hi = Inr [] \<and>
      queryFilter env_two_transfers ''WhitelistUpdated'' ?lo ?hi = Inr [] \<and>
      queryFilter env_two_transfers ''Paused'' ?lo ?hi = Inr [] \<and>
      queryFilter env_two_transfers ''Unpaused'' ?lo ?hi = Inr []"
    unfolding lo hi by (simp add: env_two_transfers_def)
  have e: "transactionHash transfer_7 \<noteq> [] \<and>
      findOne_error env_two_transfers = (\<lambda>h k. None) \<and>
      create_error env_two_transfers = (\<lambda>h k. None) \<and>
      getBlock env_two_transfers (log_blockNumber transfer_7) = Inr (Some 1700000000) \<and>
      (transfer_7 \<in> set [transfer_400, transfer_7] \<and>
         (\<exists>f t v. args transfer_7 = TransferArgs f t v) \<or>
       transfer_7 \<in> set [] \<and> (\<exists>t v w. args transfer_7 = TokensMintedArgs t v w) \<or>
       transfer_7 \<in> set [] \<and> (\<exists>f v w. args transfer_7 = TokensBurnedArgs f v w) \<or>
       transfer_7 \<in> set [] \<and> (\<exists>a b. args transfer_7 = WhitelistUpdatedArgs a b) \<or>
       transfer_7 \<in> set [] \<and> (\<exists>a. args transfer_7 = PausedArgs a) \<or>
       transfer_7 \<in> set [] \<and> (\<exists>a. args transfer_7 = PausedArgs a))"
    by (simp add: transfer_7_def env_two_transfers_def tx3_def)
  note W = pollEvents_window [OF h12, of started_at_10]
  from pollEvents_window [OF h10, of started_at_10] le
  have noop: "pollEvents env_head10 started_at_10 = started_at_10" by blast
  from W lt
  have eq: "pollEvents env_two_transfers started_at_10 =
      (queryEvents env_two_transfers ?lo ?hi started_at_10)\<lparr>lastProcessedBlock := ?hi\<rparr>"
    by blast
  from W lt w
  have same: "pollEvents env_window_only started_at_10 = pollEvents env_two_transfers started_at_10"
    by blast
  from W lt q
  have folds: "pollEvents env_two_transfers started_at_10 =
      (fold (\<lambda>event. processPauseEvent env_two_transfers event False) []
         (fold (\<lambda>event. processPauseEvent env_two_transfers event True) []
            (fold (processWhitelistEvent env_two_transfers) []
               (fold (processBurnEvent env_two_transfers) []
                  (fold (processMintEvent env_two_transfers) []
                     (fold (processTransferEvent env_two_transfers)
                        [transfer_400, transfer_7] started_at_10))))))
        \<lparr>lastProcessedBlock := ?hi\<rparr>"
    by blast
  note W3 = W [THEN conjunct2, THEN conjunct2, THEN mp, OF lt, THEN conjunct2, THEN conjunct2]
  note W4 = W3 [rule_format, OF q]
  have rec: "transactionHash transfer_7
      \<in> set (map txHash (transactions (pollEvents env_two_transfers started_at_10)))"
    by (rule W4 [THEN conjunct2, rule_format, OF e])
  from eq have eq': "pollEvents env_two_transfers started_at_10 =
      (queryEvents env_two_transfers 11 12 started_at_10)\<lparr>lastProcessedBlock := 12\<rparr>"
    unfolding lo hi .
  from folds have folds': "pollEvents env_two_transfers started_at_10 =
     (fold (processTransferEvent env_two_transfers) [transfer_400, transfer_7] started_at_10)
       \<lparr>lastProcessedBlock := 12\<rparr>"
    unfolding hi by simp
  have t: "transactionHash transfer_7 = tx3" by (simp add: transfer_7_def)
  from q have q': "queryFilter env_two_transfers ''Transfer'' 11 12
      = Inr [transfer_400, transfer_7]"
    unfolding lo hi by simp
  from rec have rec': "tx3
      \<in> set (map txHash (transactions (pollEvents env_two_transfers started_at_10)))"
    unfolding t .
  from h10 le noop h12 lt eq' d same q' folds' t rec' show ?thesis by blast
qed

subsection \<open>Failures of the transport and the stop request\<close>

lemma store_view_cong:
  assumes "store_view s = store_view s'"
  shows "store_view (processTransferEvent env ev s) = store_view (processTransferEvent env ev s')"
    and "store_view (processMintEvent env ev s) = store_view (processMintEvent env ev s')"
    and "store_view (processBurnEvent env ev s) = store_view (processBurnEvent env ev s')"
    and "store_view (processWhitelistEvent env ev s) = store_view (processWhitelistEvent env ev s')"
    and "store_view (processPauseEvent env ev p s) = store_view (processPauseEvent env ev p s')"
proof -
  have t: "transactions s = transactions s'" "users s = users s'"
    "lastProcessedBlock s = lastProcessedBlock s'"
    using assms by (simp_all add: store_view_def)
  show "store_view (processTransferEvent env ev s) = store_view (processTransferEvent env ev s')"
    unfolding processTransferEvent_def Let_def t
    by (simp add: t store_view_def console_log_def console_error_def
        split: option.split sum.split event_args.split)
  show "store_view (processMintEvent env ev s) = store_view (processMintEvent env ev s')"
    unfolding processMintEvent_def Let_def t
    by (simp add: t store_view_def console_log_def console_error_def
        split: option.split sum.split event_args.split)
  show "store_view (processBurnEvent env ev s) = store_view (processBurnEvent env ev s')"
    unfolding processBurnEvent_def Let_def t
    by (simp add: t store_view_def console_log_def console_error_def
        split: option.split sum.split event_args.split)
  show "store_view (processWhitelistEvent env ev s) = store_view (processWhitelistEvent env ev s')"
    unfolding processWhitelistEvent_def Let_def t
    by (simp add: t store_view_def console_log_def console_error_def
        split: option.split sum.split event_args.split)
  show "store_view (processPauseEvent env ev p s) = store_view (processPauseEvent env ev p s')"
    unfolding processPauseEvent_def Let_def t
    by (simp add: t store_view_def console_log_def console_error_def
        split: option.split sum.split event_args.split)
qed

lemma fold_store_view:
  assumes step: "\<And>x s s'. store_view s = store_view s' \<Longrightarrow> store_view (f x s) = store_view (f x s')"
  shows "store_view s = store_view s' \<Longrightarrow> store_view (fold f xs s) = store_view (fold f xs s')"
proof (induction xs arbitrary: s s')
  case Nil
  then show ?case by simp
next
  case (Cons x xs)
  from step [OF Cons.prems] have "store_view (f x s) = store_view (f x s')" .
  from Cons.IH [OF this] show ?case by simp
qed

lemma queryEvents_catch_store_view:
  "store_view s = store_view s' \<Longrightarrow>
     store_view (queryEvents_catch e s) = store_view (queryEvents_catch e s')"
  by (simp add: queryEvents_catch_def console_error_def store_view_def)

lemma queryEvents_store_view:
  assumes "store_view s = store_view s'"
  shows "store_view (queryEvents env a b s) = store_view (queryEvents env a b s')"
proof -
  let ?f1 = "fold (processTransferEvent env)" and ?f2 = "fold (processMintEvent env)"
  let ?f3 = "fold (processBurnEvent env)" and ?f4 = "fold (processWhitelistEvent env)"
  let ?f5 = "fold (\<lambda>event. processPauseEvent env event True)"
  let ?f6 = "fold (\<lambda>event. processPauseEvent env event False)"
  have 1: "store_view (?f1 xs t) = store_view (?f1 xs t')" if "store_view t = store_view t'"
    for xs t t' using that by (intro fold_store_view store_view_cong)
  have 2: "store_view (?f2 xs t) = store_view (?f2 xs t')" if "store_view t = store_view t'"
    for xs t t' using that by (intro fold_store_view store_view_cong)
  have 3: "store_view (?f3 xs t) = store_view (?f3 xs t')" if "store_view t = store_view t'"
    for xs t t' using that by (intro fold_store_view store_view_cong)
  have 4: "store_view (?f4 xs t) = store_view (?f4 xs t')" if "store_view t = store_view t'"
    for xs t t' using that by (intro fold_store_view store_view_cong)
  have 5: "store_view (?f5 xs t) = store_view (?f5 xs t')" if "store_view t = store_view t'"
    for xs t t' using that by (intro fold_store_view store_view_cong)
  have 6: "store_view (?f6 xs t) = store_view (?f6 xs t')" if "store_view t = store_view t'"
    for xs t t' using that by (intro fold_store_view store_view_cong)
  note c = queryEvents_catch_store_view
  show ?thesis
  proof (cases "queryFilter env ''Transfer'' a b")
    case (Inl e)
    then show ?thesis by (simp add: queryEvents_def c [OF assms])
  next
    case r1: (Inr xs1)
    note s1 = 1 [OF assms, of xs1]
    show ?thesis
    proof (cases "queryFilter env ''TokensMinted'' a b")
      case (Inl e)
      with r1 show ?thesis by (simp add: queryEvents_def c [OF s1])
    next
      case r2: (Inr xs2)
      note s2 = 2 [OF s1, of xs2]
      show ?thesis
      proof (cases "queryFilter env ''TokensBurned'' a b")
        case (Inl e)
        with r1 r2 show ?thesis by (simp add: queryEvents_def c [OF s2])
      next
        case r3: (Inr xs3)
        note s3 = 3 [OF s2, of xs3]
        show ?thesis
        proof (cases "queryFilter env ''WhitelistUpdated'' a b")
          case (Inl e)
          with r1 r2 r3 show ?thesis by (simp add: queryEvents_def c [OF s3])
        next
          case r4: (Inr xs4)
          note s4 = 4 [OF s3, of xs4]
          show ?thesis
          proof (cases "queryFilter env ''Paused'' a b")
            case (Inl e)
            with r1 r2 r3 r4 show ?thesis by (simp add: queryEvents_def c [OF s4])
          next
            case r5: (Inr xs5)
            note s5 = 5 [OF s4, of xs5]
            show ?thesis
            proof (cases "queryFilter env ''Unpaused'' a b")
              case (Inl e)
              with r1 r2 r3 r4 r5 show ?thesis by (simp add: queryEvents_def c [OF s5])
            next
              case r6: (Inr xs6)
              with r1 r2 r3 r4 r5 show ?thesis by (simp add: queryEvents_def 6 [OF s5, of xs6])
            qed
          qed
        qed
      qed
    qed
  qed
qed

lemma pollEvents_finish_store_view:
  assumes "store_view s = store_view s'"
  shows "store_view (pollEvents_finish env w s) = store_view (pollEvents_finish env w s')"
  using queryEvents_store_view [OF assms, of env "fst w" "snd w"]
  by (simp add: pollEvents_finish_def Let_def store_view_def)

lemma pollEvents_store_view:
  assumes "store_view s = store_view s'"
  shows "store_view (pollEvents env s) = store_view (pollEvents env s')"
proof -
  have c: "lastProcessedBlock s = lastProcessedBlock s'"
    using assms by (simp add: store_view_def)
  have q: "store_view ((queryEvents env a b s)\<lparr>lastProcessedBlock := n\<rparr>)
      = store_view ((queryEvents env a b s')\<lparr>lastProcessedBlock := n\<rparr>)" for a b n
    using queryEvents_store_view [OF assms, of env a b] by (simp add: store_view_def)
  show ?thesis
  proof (cases "getBlockNumber env")
    case (Inl e)
    with assms show ?thesis
      by (simp add: pollEvents_def pollEvents_catch_def console_error_def store_view_def)
  next
    case (Inr head)
    with assms show ?thesis
      unfolding pollEvents_def Let_def c by (simp add: q)
  qed
qed

lemma stopListening_fields:
  "pollingInterval (stopListening s) = None" "\<not> isRunning (stopListening s)"
  "store_view (stopListening s) = store_view s"
  by (simp_all add: stopListening_def Let_def console_log_def store_view_def split: option.splits)

lemma run_ticks_stopped: "pollingInterval s = None \<Longrightarrow> run (map Tick envs) s = s"
  by (induction envs) simp_all

lemma pollingInterval_run_ticks:
  "pollingInterval (run (map Tick envs) s) = pollingInterval s"
  by (induction envs arbitrary: s) simp_all

lemma isRunning_run_ticks:
  "isRunning (run (map Tick envs) s) = isRunning s"
  by (induction envs arbitrary: s) simp_all

text \<open>
  C7, as the claim states it, fails: the delay before the next poll is the period of the timer,
  and after one failed head query and after two in a row it is the 15000 ms it was before.
\<close>

theorem delay_fixed_across_failures_counterexample:
  "getBlockNumber env_down = Inl (TransportError ''network timeout'') \<and>
   pollingInterval started_at_10 = Some 15000 \<and>
   pollingInterval (run [Tick env_down] started_at_10) = Some 15000 \<and>
   pollingInterval (run [Tick env_down, Tick env_down] started_at_10) = Some 15000"
  by (simp add: env_down_def started_at_10_fields)

text \<open>
  C7 (amended): there is no backoff. An iteration, failed or not, leaves the timer and its
  fixed period of 15000 ms and the running flag as they were, and so does any sequence of
  timer ticks; an iteration whose head query fails changes nothing but the console (not even
  that when the message contains \<open>filter not found\<close>). Only \<open>stopListening\<close> clears the timer
  and the running flag, after which ticks do nothing. An iteration does not consult either:
  started before or after the stop request, it works through the same window to the same
  store and cursor, and so does the second step of an iteration that was in flight when the
  stop request came.
\<close>

theorem no_backoff_only_stop_ends_polling:
  "POLLING_INTERVAL_MS = 15000 \<and>
   pollingInterval (pollEvents env s) = pollingInterval s \<and>
   isRunning (pollEvents env s) = isRunning s \<and>
   pollingInterval (run (map Tick envs) s) = pollingInterval s \<and>
   isRunning (run (map Tick envs) s) = isRunning s \<and>
   (\<forall>e. getBlockNumber env = Inl e \<longrightarrow>
      pollEvents env s =
        (if str_includes (message e) ''filter not found'' then s
         else s\<lparr>console := console s @ [ConsoleError ''Error polling events:'' (message e)]\<rparr>)) \<and>
   pollingInterval (stopListening s) = None \<and> \<not> isRunning (stopListening s) \<and>
   run (map Tick envs) (stopListening s) = stopListening s \<and>
   store_view (pollEvents env (stopListening s)) = store_view (pollEvents env s) \<and>
   pollingInterval (pollEvents_finish env w s) = pollingInterval s \<and>
   isRunning (pollEvents_finish env w s) = isRunning s \<and>
   store_view (pollEvents_finish env w (stopListening s)) = store_view (pollEvents_finish env w s)"
proof -
  have "store_view (pollEvents env (stopListening s)) = store_view (pollEvents env s)"
    by (rule pollEvents_store_view) (rule stopListening_fields)
  moreover have "store_view (pollEvents_finish env w (stopListening s))
      = store_view (pollEvents_finish env w s)"
    by (rule pollEvents_finish_store_view) (rule stopListening_fields)
  ultimately show ?thesis
    by (simp add: POLLING_INTERVAL_MS_def pollingInterval_run_ticks isRunning_run_ticks
        pollEvents_head_error stopListening_fields run_ticks_stopped)
qed

theorem no_backoff_only_stop_ends_polling_witness:
  "getBlockNumber env_down = Inl (TransportError ''network timeout'') \<and>
   pollEvents env_down started_at_10 =
     started_at_10\<lparr>console := console started_at_10
        @ [ConsoleError ''Error polling events:'' ''network timeout'']\<rparr> \<and>
   pollingInterval (run (map Tick [env_down, env_down, env_two_transfers]) started_at_10)
     = Some 15000 \<and>
   run (map Tick [env_two_transfers]) (stopListening started_at_10) = stopListening started_at_10"
proof -
  have h: "getBlockNumber env_down = Inl (TransportError ''network timeout'')"
    by (simp add: env_down_def)
  have n: "\<not> str_includes ''network timeout'' ''filter not found''"
    by simp
  from no_backoff_only_stop_ends_polling [of env_down started_at_10 "[env_two_transfers]"]
    no_backoff_only_stop_ends_polling
      [of env_down started_at_10 "[env_down, env_down, env_two_transfers]"]
    h n
  show ?thesis
    by (simp add: started_at_10_fields del: run.simps apply_step.simps str_includes.simps)
qed

section \<open>The mirror store\<close>

lemma findOne_absent:
  "findOne_error env h k = None \<Longrightarrow> h \<notin> set (map txHash db) \<Longrightarrow>
     Transaction_findOne env h k db = Inr None"
  by (induction db) (auto simp: Transaction_findOne_def)

lemma tx_nonempty: "tx1 \<noteq> []" "tx2 \<noteq> []" "tx3 \<noteq> []"
  by (simp_all add: tx1_def tx2_def tx3_def)

lemma tx_distinct: "tx1 \<noteq> tx3" "tx3 \<noteq> tx1"
  by (simp_all add: tx1_def tx3_def)

lemma decimal_400: "decimal 400 = ''400''"
  by code_simp

lemma decimal_7: "decimal 7 = ''7''"
  by code_simp

lemma decimal_100: "decimal 100 = ''100''"
  by code_simp

lemma processTransferEvent_recorded:
  assumes "args ev = TransferArgs f t v"
    and "transactionHash ev \<noteq> []"
    and "transactionHash ev \<notin> set (map txHash (transactions s))"
    and "getBlock env (log_blockNumber ev) = Inr block"
    and "findOne_error env (transactionHash ev) (Some ''Transfer'') = None"
    and "create_error env (transactionHash ev) ''Transfer'' = None"
  shows "processTransferEvent env ev s =
     s\<lparr>transactions := transactions s @
          [\<lparr>txHash = transactionHash ev, blockNumber = log_blockNumber ev,
            blockTimestamp = blockDate env block, eventType = ''Transfer'',
            from_address = Some (toLowerCase f), to_address = Some (toLowerCase t),
            amount = Some (decimal v), whitelistStatus = None, role_name = None,
            account = None, reason = None, rawData = TransferArgs f t v, processed = True\<rparr>],
        console := console s @
          [ConsoleLog (''Transfer event processed: '' @ take 10 (transactionHash ev) @ ''...'')]\<rparr>"
  using assms
  by (simp add: processTransferEvent_def Let_def findOne_absent Transaction_create_def
      new_transaction_def console_log_def enum_members toLowerCase_idem)

lemma transfer_400_recorded:
  "processTransferEvent env_two_transfers transfer_400 started_at_10 =
     started_at_10\<lparr>transactions :=
          [\<lparr>txHash = tx1, blockNumber = 11, blockTimestamp = 1700000000000,
            eventType = ''Transfer'',
            from_address = Some ''0x00000000000000000000000000000000000a11ce'',
            to_address = Some ''0x0000000000000000000000000000000000000b0b'',
            amount = Some ''400'', whitelistStatus = None, role_name = None,
            account = None, reason = None, rawData = TransferArgs alice bob 400,
            processed = True\<rparr>],
        console := console started_at_10 @
          [ConsoleLog (''Transfer event processed: '' @ take 10 tx1 @ ''...'')]\<rparr>"
proof -
  have "processTransferEvent env_two_transfers transfer_400 started_at_10 =
     started_at_10\<lparr>transactions := transactions started_at_10 @
          [\<lparr>txHash = transactionHash transfer_400, blockNumber = log_blockNumber transfer_400,
            blockTimestamp = blockDate env_two_transfers (Some 1700000000),
            eventType = ''Transfer'',
            from_address = Some (toLowerCase alice), to_address = Some (toLowerCase bob),
            amount = Some (decimal 400), whitelistStatus = None, role_name = None,
            account = None, reason = None, rawData = TransferArgs alice bob 400,
            processed = True\<rparr>],
        console := console started_at_10 @
          [ConsoleLog (''Transfer event processed: '' @ take 10 (transactionHash transfer_400)
             @ ''...'')]\<rparr>"
    by (rule processTransferEvent_recorded)
      (simp_all add: transfer_400_def tx_nonempty started_at_10_fields env_two_transfers_def)
  then show ?thesis
    by (simp add: transfer_400_def started_at_10_fields blockDate_def lower_alice lower_bob
        decimal_400)
qed




text \<open>
  C3, as the claim states it, fails: the store has no account before the transfer of 400 from
  \<open>alice\<close> to \<open>bob\<close> is applied and none after; the transfer left one history record and no
  balance anywhere.
\<close>

theorem transfer_materializes_no_account_counterexample:
  "args transfer_400 = TransferArgs alice bob 400 \<and> users started_at_10 = [] \<and>
   users (processTransferEvent env_two_transfers transfer_400 started_at_10) = [] \<and>
   map (\<lambda>t. (eventType t, amount t))
     (transactions (processTransferEvent env_two_transfers transfer_400 started_at_10))
     = [(''Transfer'', Some ''400'')]"
  by (simp add: transfer_400_recorded started_at_10_fields) (simp add: transfer_400_def)

text \<open>
  C3 (amended): the mirror store keeps no balance and no total supply. Applying a transfer, a
  mint or a burn, in the polling service or in the listener, leaves every account record as it
  was and creates none; a transfer changes the history at most by appending one record of
  type \<open>Transfer\<close> with the lower-cased parties and the amount.
\<close>

theorem balance_events_touch_history_only:
  "users (processTransferEvent env ev s) = users s \<and>
   users (processMintEvent env ev s) = users s \<and>
   users (processBurnEvent env ev s) = users s \<and>
   users (processTransferEvent_listener env f t v ev s) = users s \<and>
   users (processMintEvent_listener env t v why ev s) = users s \<and>
   (transactions (processTransferEvent env ev s) = transactions s \<or>
    (\<exists>f' t' v' doc. args ev = TransferArgs f' t' v' \<and>
       transactions (processTransferEvent env ev s) = transactions s @ [doc] \<and>
       eventType doc = ''Transfer'' \<and> txHash doc = transactionHash ev \<and>
       from_address doc = Some (toLowerCase f') \<and> to_address doc = Some (toLowerCase t') \<and>
       amount doc = Some (decimal v')))"
proof -
  have u: "users (processTransferEvent env ev s) = users s"
    "users (processMintEvent env ev s) = users s"
    "users (processBurnEvent env ev s) = users s"
    by (simp_all add: process_defs Let_def console_log_def console_error_def
        split: option.splits sum.splits event_args.splits)
  have l: "users (processTransferEvent_listener env f t v ev s) = users s"
    "users (processMintEvent_listener env t v why ev s) = users s"
    by (simp_all add: processTransferEvent_listener_def processMintEvent_listener_def Let_def
        console_log_def console_error_def split: option.splits sum.splits)
  have h: "transactions (processTransferEvent env ev s) = transactions s \<or>
    (\<exists>f' t' v' doc. args ev = TransferArgs f' t' v' \<and>
       transactions (processTransferEvent env ev s) = transactions s @ [doc] \<and>
       eventType doc = ''Transfer'' \<and> txHash doc = transactionHash ev \<and>
       from_address doc = Some (toLowerCase f') \<and> to_address doc = Some (toLowerCase t') \<and>
       amount doc = Some (decimal v'))"
    by (auto simp: processTransferEvent_def Let_def console_log_def console_error_def
        Transaction_create_def new_transaction_def toLowerCase_idem
        split: option.splits sum.splits event_args.splits if_splits)
  from u l h show ?thesis by blast
qed

theorem balance_events_touch_history_only_witness:
  "users (processTransferEvent env_two_transfers transfer_400 started_at_10) = [] \<and>
   users (processMintEvent env_mint_tx minted_100 started_at_10) = [] \<and>
   transactions (processTransferEvent env_two_transfers transfer_400 started_at_10)
     \<noteq> transactions started_at_10"
  using balance_events_touch_history_only [of env_two_transfers transfer_400 started_at_10]
    balance_events_touch_history_only [of env_mint_tx minted_100 started_at_10]
  by (simp add: started_at_10_fields transfer_400_recorded)

lemmas scenario_eval =
  pollEvents_def BLOCKS_PER_QUERY_def Let_def queryEvents_def processTransferEvent_def
  processMintEvent_def Transaction_findOne_def Transaction_create_def new_transaction_def
  eventType_enum_def console_log_def console_error_def blockDate_def started_at_10_fields
  tx_nonempty tx_distinct toLowerCase_idem lower_alice lower_bob lower_zero_address
  lower_fixed decimal_400 decimal_7 decimal_100




text \<open>
  C2 is right and the code falls short of it. One mint transaction emits a \<open>Transfer\<close> and a
  \<open>TokensMinted\<close> event under one hash. The service looks each up by hash and event type and
  finds neither, but the schema's unique index on the hash alone rejects the second
  insertion: the history holds the transfer only, and the rejection of the mint record is an
  error line on the console.
\<close>

theorem mint_record_rejected_by_unique_txHash:
  "queryFilter env_mint_tx ''Transfer'' 11 12 = Inr [mint_transfer_100] \<and>
   queryFilter env_mint_tx ''TokensMinted'' 11 12 = Inr [minted_100] \<and>
   transactionHash mint_transfer_100 = transactionHash minted_100 \<and>
   Transaction_findOne env_mint_tx (transactionHash minted_100) (Some ''Mint'')
     (transactions (processTransferEvent env_mint_tx mint_transfer_100 started_at_10))
     = Inr None \<and>
   map (\<lambda>t. (txHash t, eventType t)) (transactions (pollEvents env_mint_tx started_at_10))
     = [(tx2, ''Transfer'')] \<and>
   filter is_error_line (console (pollEvents env_mint_tx started_at_10))
     = [ConsoleError ''Error processing mint event:'' ''E11000 duplicate key error'']"
  by (simp add: scenario_eval env_mint_tx_def mint_transfer_100_def minted_100_def)


end
